theory Spec2Isabelle
  imports Main "HOL-Library.Word" "HOL-Library.AList"
begin

chapter \<open>The program\<close>

section \<open>Constants (constants.ts)\<close>

datatype OpCode = Handshake | Frame | Close | Ping | Pong

text \<open>The numeric value of each member of the \<open>OpCode\<close> table.\<close>

fun op_value :: "OpCode \<Rightarrow> nat" where
  "op_value Handshake = 0"
| "op_value Frame = 1"
| "op_value Close = 2"
| "op_value Ping = 3"
| "op_value Pong = 4"

definition IPC_VERSION :: int where
  "IPC_VERSION = 1"

definition HEADER_SIZE :: nat where
  "HEADER_SIZE = 8"

definition HEARTBEAT_INTERVAL :: nat where
  "HEARTBEAT_INTERVAL = 30000"

definition MAX_PIPE_INDEX :: nat where
  "MAX_PIPE_INDEX = 9"

definition Command_Dispatch :: string where
  "Command_Dispatch = ''DISPATCH''"

definition Command_SetActivity :: string where
  "Command_SetActivity = ''SET_ACTIVITY''"

definition RPCEvent_Ready :: string where
  "RPCEvent_Ready = ''READY''"

definition RPCEvent_Error :: string where
  "RPCEvent_Error = ''ERROR''"

section \<open>Values and errors (errors.ts)\<close>

text \<open>
  A value produced by \<open>JSON.parse\<close>. Numbers are the integral ones (the protocol's
  codes, versions and process ids).
\<close>

datatype json =
    JNull
  | JBool bool
  | JNum int
  | JStr string
  | JArr "json list"
  | JObj "(string \<times> json) list"

text \<open>
  The error classes of errors.ts, and the two built-in errors the modelled code can
  raise. \<open>CommandError\<close> carries its message, a string, and the field \<open>code\<close>, which
  holds the value the constructor was given (the source casts it without a check).
\<close>

datatype error =
    ConnectionError string
  | CommandError string json
  | TimeoutError string
  | StateError string
  | RangeError
  | TypeError

section \<open>Buffers\<close>

type_synonym byte = "8 word"
type_synonym Buffer = "byte list"

definition Buffer_alloc :: "nat \<Rightarrow> Buffer" where
  "Buffer_alloc n = replicate n 0"

text \<open>The four bytes of an unsigned 32-bit value, least significant first.\<close>

definition le32 :: "nat \<Rightarrow> Buffer" where
  "le32 v = [of_nat v, of_nat (v div 256), of_nat (v div 65536), of_nat (v div 16777216)]"

text \<open>
  \<open>buf.writeUInt32LE(value, offset)\<close>: a value outside the unsigned 32-bit range or an
  offset that leaves no room for four bytes raises a range error.
\<close>

definition writeUInt32LE :: "Buffer \<Rightarrow> nat \<Rightarrow> nat \<Rightarrow> error + Buffer" where
  "writeUInt32LE buf v offset =
     (if v \<ge> 2 ^ 32 \<or> offset + 4 > length buf then Inl RangeError
      else Inr (take offset buf @ le32 v @ drop (offset + 4) buf))"

text \<open>\<open>buf.readUInt32LE(offset)\<close>: raises when fewer than four bytes follow the offset.\<close>

definition readUInt32LE :: "Buffer \<Rightarrow> nat \<Rightarrow> error + nat" where
  "readUInt32LE buf offset =
     (if offset + 4 > length buf then Inl RangeError
      else Inr (unat (buf ! offset) + 256 * unat (buf ! (offset + 1))
                + 65536 * unat (buf ! (offset + 2)) + 16777216 * unat (buf ! (offset + 3))))"

text \<open>\<open>buf.subarray(start, end)\<close> and \<open>buf.subarray(start)\<close>; both clamp to the buffer.\<close>

definition subarray :: "Buffer \<Rightarrow> nat \<Rightarrow> nat \<Rightarrow> Buffer" where
  "subarray buf start end = drop start (take end buf)"

definition subarray_from :: "Buffer \<Rightarrow> nat \<Rightarrow> Buffer" where
  "subarray_from buf start = drop start buf"

section \<open>Transport: framing (transport.ts)\<close>

text \<open>
  The socket of the transport. \<open>sock_path\<close> is the endpoint it was opened on.
\<close>

record Socket =
  sock_path :: string
  destroyed :: bool

text \<open>
  \<open>IPCTransport\<close>. The fields \<open>socket\<close> and \<open>buffer\<close> are those of the class. The
  others record what the transport did: \<open>written\<close> the byte blocks handed to
  \<open>socket.write\<close>, \<open>slots\<close> the pipe indexes \<open>tryConnect\<close> was called with,
  \<open>attempts\<close> the paths handed to \<open>net.connect\<close> with the timeout armed for each,
  \<open>abandoned\<close> the paths whose socket was destroyed during discovery.
\<close>

record IPCTransport =
  socket :: "Socket option"
  buffer :: Buffer
  written :: "Buffer list"
  slots :: "nat list"
  attempts :: "(string \<times> nat) list"
  abandoned :: "string list"

definition new_IPCTransport :: IPCTransport where
  "new_IPCTransport =
     \<lparr>socket = None, buffer = Buffer_alloc 0, written = [], slots = [], attempts = [],
      abandoned = []\<rparr>"

text \<open>The getter \<open>connected\<close>.\<close>

definition transport_connected :: "IPCTransport \<Rightarrow> bool" where
  "transport_connected t = (case socket t of None \<Rightarrow> False | Some s \<Rightarrow> \<not> destroyed s)"

text \<open>
  The framing done by \<open>send\<close>. The parameter \<open>stringify\<close> stands for
  \<open>Buffer.from(JSON.stringify(payload))\<close> of the platform; \<open>None\<close> is a payload that has
  no JSON text, where the platform raises a type error.
\<close>

definition encode :: "('p \<Rightarrow> Buffer option) \<Rightarrow> nat \<Rightarrow> 'p \<Rightarrow> error + Buffer" where
  "encode stringify op payload =
     (case stringify payload of
        None \<Rightarrow> Inl TypeError
      | Some data \<Rightarrow>
          (case writeUInt32LE (Buffer_alloc HEADER_SIZE) op 0 of
             Inl e \<Rightarrow> Inl e
           | Inr header \<Rightarrow>
               (case writeUInt32LE header (length data) 4 of
                  Inl e \<Rightarrow> Inl e
                | Inr header' \<Rightarrow> Inr (header' @ data))))"

definition send :: "('p \<Rightarrow> Buffer option) \<Rightarrow> IPCTransport \<Rightarrow> nat \<Rightarrow> 'p \<Rightarrow> error + IPCTransport" where
  "send stringify t op payload =
     (if \<not> transport_connected t
      then Inl (ConnectionError ''Cannot send data: transport is not connected.'')
      else (case encode stringify op payload of
              Inl e \<Rightarrow> Inl e
            | Inr packet \<Rightarrow> Inr (t\<lparr>written := written t @ [packet]\<rparr>)))"

text \<open>\<open>IPCTransport.destroy\<close>.\<close>

definition transport_destroy :: "IPCTransport \<Rightarrow> IPCTransport" where
  "transport_destroy t = t\<lparr>socket := None, buffer := Buffer_alloc 0\<rparr>"

text \<open>
  \<open>processBuffer\<close>. The parameter \<open>parse\<close> stands for
  \<open>JSON.parse(raw.toString('utf-8'))\<close>, \<open>None\<close> where it raises. The result is the list
  of packets handed to the packet handler, in order, the buffer left behind, and the
  error raised, if any. The handler runs inside the \<open>try\<close> block, so nothing it raises
  leaves the loop.
\<close>

function processBuffer ::
  "(Buffer \<Rightarrow> 'p option) \<Rightarrow> Buffer \<Rightarrow> (nat \<times> 'p) list \<times> Buffer \<times> error option" where
  "processBuffer parse buf =
     (if length buf \<ge> HEADER_SIZE then
        (case readUInt32LE buf 0 of
           Inl e \<Rightarrow> ([], buf, Some e)
         | Inr op \<Rightarrow>
             (case readUInt32LE buf 4 of
                Inl e \<Rightarrow> ([], buf, Some e)
              | Inr len \<Rightarrow>
                  (let totalPacketSize = HEADER_SIZE + len in
                   if length buf < totalPacketSize then ([], buf, None)
                   else
                     (let raw = subarray buf HEADER_SIZE totalPacketSize;
                          rest = subarray_from buf totalPacketSize
                      in (case processBuffer parse rest of
                            (ms, buf', thrown) \<Rightarrow>
                              (case parse raw of
                                 None \<Rightarrow> (ms, buf', thrown)
                               | Some payload \<Rightarrow> ((op, payload) # ms, buf', thrown)))))))
      else ([], buf, None))"
  by pat_completeness auto
termination
  by (relation "measure (\<lambda>(parse, buf). length buf)")
     (auto simp: HEADER_SIZE_def subarray_from_def)

declare processBuffer.simps [simp del]

text \<open>
  The \<open>data\<close> listener of \<open>setupListeners\<close>: the chunk is appended to the buffer and
  the buffer is processed.
\<close>

definition on_data ::
  "(Buffer \<Rightarrow> 'p option) \<Rightarrow> IPCTransport \<Rightarrow> Buffer \<Rightarrow> (nat \<times> 'p) list \<times> IPCTransport \<times> error option" where
  "on_data parse t chunk =
     (case processBuffer parse (buffer t @ chunk) of
        (ms, buf', thrown) \<Rightarrow> (ms, t\<lparr>buffer := buf'\<rparr>, thrown))"

text \<open>
  A sequence of \<open>data\<close> events, one per chunk. An error raised by a listener ends the
  run.
\<close>

fun receive ::
  "(Buffer \<Rightarrow> 'p option) \<Rightarrow> IPCTransport \<Rightarrow> Buffer list \<Rightarrow> (nat \<times> 'p) list \<times> IPCTransport \<times> error option" where
  "receive parse t [] = ([], t, None)"
| "receive parse t (chunk # chunks) =
     (case on_data parse t chunk of
        (ms, t', Some e) \<Rightarrow> (ms, t', Some e)
      | (ms, t', None) \<Rightarrow>
          (case receive parse t' chunks of
             (ms', t'', thrown) \<Rightarrow> (ms @ ms', t'', thrown)))"

section \<open>Text of numbers\<close>

text \<open>\<open>String(n)\<close> for a non-negative integer: its decimal digits.\<close>

function String_nat :: "nat \<Rightarrow> string" where
  "String_nat n =
     (if n < 10 then [char_of (48 + n)]
      else String_nat (n div 10) @ [char_of (48 + n mod 10)])"
  by pat_completeness auto
termination
  by (relation "measure id") auto

declare String_nat.simps [simp del]

definition String_int :: "int \<Rightarrow> string" where
  "String_int i = (if i < 0 then CHR ''-'' # String_nat (nat (- i)) else String_nat (nat i))"

text \<open>
  The string that the constructor of \<open>Error\<close> makes of its argument when that is a
  parsed value: a string is kept, an integer is its decimal digits, an array is the
  texts of its elements joined by commas (with nothing for \<open>null\<close>), and every
  object is \<open>[object Object]\<close>.
\<close>

fun join_comma :: "string list \<Rightarrow> string" where
  "join_comma [] = []"
| "join_comma [s] = s"
| "join_comma (s # t # ss) = s @ '','' @ join_comma (t # ss)"

fun ToString :: "json \<Rightarrow> string" where
  "ToString JNull = ''null''"
| "ToString (JBool b) = (if b then ''true'' else ''false'')"
| "ToString (JNum i) = String_int i"
| "ToString (JStr s) = s"
| "ToString (JArr vs) = join_comma (map (\<lambda>v. if v = JNull then [] else ToString v) vs)"
| "ToString (JObj kvs) = ''[object Object]''"

section \<open>Transport: discovery (transport.ts)\<close>

text \<open>
  What the operating system answers when \<open>net.connect(path)\<close> is called: the socket
  emits \<open>connect\<close>, or it emits \<open>error\<close> with a code and a message, or neither happens
  before the timer set by \<open>tryPath\<close> fires.
\<close>

datatype attempt = Connects | Errors string string | TimesOut

text \<open>
  The host of the process: \<open>process.platform\<close>, the environment variables read by
  \<open>getPipePaths\<close>, \<open>join\<close> of \<open>node:path\<close>, and the answer to \<open>net.connect\<close>.
\<close>

record Host =
  platform :: string
  XDG_RUNTIME_DIR :: "string option"
  TMPDIR :: "string option"
  TMP :: "string option"
  TEMP :: "string option"
  join :: "string list \<Rightarrow> string"
  net_connect :: "string \<Rightarrow> attempt"

text \<open>An environment variable is used when it is set and not the empty string.\<close>

definition env_dirs :: "string option \<Rightarrow> string list" where
  "env_dirs v = (case v of None \<Rightarrow> [] | Some d \<Rightarrow> if d = [] then [] else [d])"

definition getPipePaths :: "Host \<Rightarrow> nat \<Rightarrow> string list" where
  "getPipePaths h index =
     (let name = ''discord-ipc-'' @ String_nat index in
      if platform h = ''win32''
      then [[CHR 0x5C, CHR 0x5C, CHR ''?'', CHR 0x5C] @ ''pipe'' @ [CHR 0x5C] @ name]
      else
        (let dirs =
               concat (map (\<lambda>x. [x, join h [x, ''app'', ''com.discordapp.Discord''],
                                   join h [x, ''snap.discord'']])
                           (env_dirs (XDG_RUNTIME_DIR h)))
               @ env_dirs (TMPDIR h) @ env_dirs (TMP h) @ env_dirs (TEMP h);
             dirs' = (if length dirs = 0 then [''/tmp''] else dirs)
         in map (\<lambda>dir. join h [dir, name]) dirs'))"

text \<open>
  The inner function \<open>tryPath\<close> of \<open>tryConnect\<close>, with the candidate paths and the
  transport passed along. The result is how the promise of \<open>tryConnect\<close> is settled.
\<close>

function tryPath ::
  "Host \<Rightarrow> nat \<Rightarrow> nat \<Rightarrow> string list \<Rightarrow> nat \<Rightarrow> IPCTransport \<Rightarrow> (error + unit) \<times> IPCTransport" where
  "tryPath h index timeout paths pathIndex t =
     (if pathIndex \<ge> length paths
      then (Inl (ConnectionError (''No Discord IPC pipe found at index '' @ String_nat index @ ''.'')), t)
      else
        (let path = paths ! pathIndex in
         if path = []
         then (Inl (ConnectionError (''No Discord IPC pipe found at index '' @ String_nat index @ ''.'')), t)
         else
           (let t1 = t\<lparr>socket := None, attempts := attempts t @ [(path, timeout)]\<rparr> in
            case net_connect h path of
              Connects \<Rightarrow>
                (Inr (), t1\<lparr>socket := Some \<lparr>sock_path = path, destroyed = False\<rparr>\<rparr>)
            | TimesOut \<Rightarrow>
                (Inl (ConnectionError (''Connection timed out after '' @ String_nat timeout @ ''ms.'')),
                 t1\<lparr>abandoned := abandoned t1 @ [path]\<rparr>)
            | Errors code message \<Rightarrow>
                (let t2 = t1\<lparr>abandoned := abandoned t1 @ [path]\<rparr> in
                 if code = ''ENOENT'' \<or> code = ''ECONNREFUSED''
                 then tryPath h index timeout paths (pathIndex + 1) t2
                 else (Inl (ConnectionError (''IPC connection error: '' @ message)), t2)))))"
  by pat_completeness auto
termination
  by (relation "measure (\<lambda>(h, index, timeout, paths, pathIndex, t). length paths - pathIndex)") auto

declare tryPath.simps [simp del]

definition tryConnect :: "Host \<Rightarrow> nat \<Rightarrow> nat \<Rightarrow> IPCTransport \<Rightarrow> (error + unit) \<times> IPCTransport" where
  "tryConnect h index timeout t =
     tryPath h index timeout (getPipePaths h index) 0 (t\<lparr>slots := slots t @ [index]\<rparr>)"

text \<open>The loop of \<open>connect\<close> over the pipe indexes, from \<open>i\<close> on.\<close>

function connect_scan :: "Host \<Rightarrow> nat \<Rightarrow> nat \<Rightarrow> IPCTransport \<Rightarrow> (error + unit) \<times> IPCTransport" where
  "connect_scan h timeout i t =
     (if i \<le> MAX_PIPE_INDEX then
        (case tryConnect h i timeout t of
           (Inr u, t') \<Rightarrow> (Inr (), t')
         | (Inl e, t') \<Rightarrow> connect_scan h timeout (i + 1) t')
      else
        (Inl (ConnectionError
               (''Could not connect to Discord. No running instance found (scanned ''
                @ String_nat (MAX_PIPE_INDEX + 1) @ '' pipes).'')), t))"
  by pat_completeness auto
termination
  by (relation "measure (\<lambda>(h, timeout, i, t). Suc MAX_PIPE_INDEX - i)") auto

declare connect_scan.simps [simp del]

text \<open>
  \<open>connect(pipeIndex?, timeout = 10_000)\<close>: \<open>None\<close> is an argument left out.
\<close>

definition connect ::
  "Host \<Rightarrow> nat option \<Rightarrow> nat option \<Rightarrow> IPCTransport \<Rightarrow> (error + unit) \<times> IPCTransport" where
  "connect h pipeIndex timeout_arg t =
     (let timeout = (case timeout_arg of None \<Rightarrow> 10000 | Some ms \<Rightarrow> ms) in
      case pipeIndex of
        Some i \<Rightarrow> tryConnect h i timeout t
      | None \<Rightarrow> connect_scan h timeout 0 t)"

section \<open>A JSON text codec for the examples\<close>

text \<open>
  \<open>JSON.stringify\<close> and \<open>JSON.parse\<close> belong to the platform, so the transport takes
  them as parameters. The examples below instantiate the parameters with this codec
  for compact JSON text: \<open>null\<close>, booleans, integers, strings of printable ASCII
  characters other than the quote and the backslash, arrays and objects. Outside that
  fragment both functions answer \<open>None\<close>.
\<close>

definition plain_char :: "char \<Rightarrow> bool" where
  "plain_char c = (32 \<le> (of_char c :: nat) \<and> (of_char c :: nat) < 127 \<and> c \<noteq> CHR ''\"'' \<and> c \<noteq> CHR 0x5C)"

fun example_text :: "json \<Rightarrow> string option"
  and example_elems :: "json list \<Rightarrow> string option"
  and example_members :: "(string \<times> json) list \<Rightarrow> string option" where
  "example_text JNull = Some ''null''"
| "example_text (JBool b) = Some (if b then ''true'' else ''false'')"
| "example_text (JNum i) = Some (String_int i)"
| "example_text (JStr s) = (if list_all plain_char s then Some (''\"'' @ s @ ''\"'') else None)"
| "example_text (JArr vs) =
     (if vs = [] then Some ''[]''
      else (case example_elems vs of None \<Rightarrow> None | Some t \<Rightarrow> Some (''['' @ t @ '']'')))"
| "example_text (JObj kvs) =
     (if kvs = [] then Some ''{}''
      else (case example_members kvs of None \<Rightarrow> None | Some t \<Rightarrow> Some (''{'' @ t @ ''}'')))"
| "example_elems [] = Some []"
| "example_elems (v # vs) =
     (case example_text v of None \<Rightarrow> None
      | Some t \<Rightarrow>
          (if vs = [] then Some t
           else (case example_elems vs of None \<Rightarrow> None | Some ts \<Rightarrow> Some (t @ '','' @ ts))))"
| "example_members [] = Some []"
| "example_members (kv # kvs) =
     (case example_text (JStr (fst kv)) of None \<Rightarrow> None
      | Some k \<Rightarrow>
          (case example_text (snd kv) of None \<Rightarrow> None
           | Some t \<Rightarrow>
               (if kvs = [] then Some (k @ '':'' @ t)
                else (case example_members kvs of None \<Rightarrow> None
                      | Some ts \<Rightarrow> Some (k @ '':'' @ t @ '','' @ ts)))))"

definition is_digit :: "char \<Rightarrow> bool" where
  "is_digit c = (48 \<le> (of_char c :: nat) \<and> (of_char c :: nat) \<le> 57)"

definition digits_nat :: "string \<Rightarrow> nat" where
  "digits_nat ds = foldl (\<lambda>acc c. 10 * acc + ((of_char c :: nat) - 48)) 0 ds"

definition read_number :: "string \<Rightarrow> (nat \<times> string) option" where
  "read_number s =
     (let ds = takeWhile is_digit s in
      if ds = [] \<or> (length ds > 1 \<and> hd ds = CHR ''0'') then None
      else Some (digits_nat ds, dropWhile is_digit s))"

fun read_string :: "string \<Rightarrow> (string \<times> string) option" where
  "read_string [] = None"
| "read_string (c # cs) =
     (if c = CHR ''\"'' then Some ([], cs)
      else if \<not> plain_char c then None
      else (case read_string cs of None \<Rightarrow> None | Some (s, r) \<Rightarrow> Some (c # s, r)))"

fun read_value :: "nat \<Rightarrow> string \<Rightarrow> (json \<times> string) option"
  and read_elems :: "nat \<Rightarrow> string \<Rightarrow> (json list \<times> string) option"
  and read_members :: "nat \<Rightarrow> string \<Rightarrow> ((string \<times> json) list \<times> string) option" where
  "read_value 0 s = None"
| "read_value (Suc n) s =
     (if take 4 s = ''null'' then Some (JNull, drop 4 s)
      else if take 4 s = ''true'' then Some (JBool True, drop 4 s)
      else if take 5 s = ''false'' then Some (JBool False, drop 5 s)
      else (case s of
              [] \<Rightarrow> None
            | c # r \<Rightarrow>
                if c = CHR ''\"'' then
                  (case read_string r of None \<Rightarrow> None | Some (str, r') \<Rightarrow> Some (JStr str, r'))
                else if c = CHR ''['' then
                  (if take 1 r = '']'' then Some (JArr [], drop 1 r)
                   else (case read_elems n r of None \<Rightarrow> None | Some (vs, r') \<Rightarrow> Some (JArr vs, r')))
                else if c = CHR ''{'' then
                  (if take 1 r = ''}'' then Some (JObj [], drop 1 r)
                   else (case read_members n r of None \<Rightarrow> None | Some (kvs, r') \<Rightarrow> Some (JObj kvs, r')))
                else if c = CHR ''-'' then
                  (case read_number r of
                     None \<Rightarrow> None
                   | Some (m, r') \<Rightarrow> if m = 0 then None else Some (JNum (- int m), r'))
                else
                  (case read_number s of None \<Rightarrow> None | Some (m, r') \<Rightarrow> Some (JNum (int m), r'))))"
| "read_elems 0 s = None"
| "read_elems (Suc n) s =
     (case read_value n s of
        None \<Rightarrow> None
      | Some (v, r) \<Rightarrow>
          (case r of
             [] \<Rightarrow> None
           | c # r' \<Rightarrow>
               if c = CHR '']'' then Some ([v], r')
               else if c = CHR '','' then
                 (case read_elems n r' of None \<Rightarrow> None | Some (vs, r'') \<Rightarrow> Some (v # vs, r''))
               else None))"
| "read_members 0 s = None"
| "read_members (Suc n) s =
     (case s of
        [] \<Rightarrow> None
      | q # r0 \<Rightarrow>
          if q \<noteq> CHR ''\"'' then None
          else (case read_string r0 of
                  None \<Rightarrow> None
                | Some (k, r1) \<Rightarrow>
                    (case r1 of
                       [] \<Rightarrow> None
                     | c # r2 \<Rightarrow>
                         if c \<noteq> CHR '':'' then None
                         else (case read_value n r2 of
                                 None \<Rightarrow> None
                               | Some (v, r3) \<Rightarrow>
                                   (case r3 of
                                      [] \<Rightarrow> None
                                    | d # r4 \<Rightarrow>
                                        if d = CHR ''}'' then Some ([(k, v)], r4)
                                        else if d = CHR '','' then
                                          (case read_members n r4 of
                                             None \<Rightarrow> None
                                           | Some (kvs, r5) \<Rightarrow> Some ((k, v) # kvs, r5))
                                        else None)))))"

definition bytes_of :: "string \<Rightarrow> Buffer" where
  "bytes_of s = map (\<lambda>c. of_nat (of_char c)) s"

definition text_of :: "Buffer \<Rightarrow> string" where
  "text_of buf = map (\<lambda>b. char_of (unat b)) buf"

definition example_stringify :: "json \<Rightarrow> Buffer option" where
  "example_stringify v = map_option bytes_of (example_text v)"

definition example_parse :: "Buffer \<Rightarrow> json option" where
  "example_parse buf =
     (let s = text_of buf in
      case read_value (Suc (length s)) s of
        Some (v, []) \<Rightarrow> Some v
      | _ \<Rightarrow> None)"

section \<open>Discovery: the outcome of a slot, and example hosts\<close>

text \<open>
  The terms in which the outcome of a slot is stated. An attempt on a path falls
  through when it ends in one of the two error codes after which \<open>tryPath\<close> goes on
  to the next candidate path.
\<close>

definition falls_through :: "Host \<Rightarrow> string \<Rightarrow> bool" where
  "falls_through h path =
     (case net_connect h path of
        Errors code message \<Rightarrow> code = ''ENOENT'' \<or> code = ''ECONNREFUSED''
      | _ \<Rightarrow> False)"

text \<open>
  The error of a slot none of whose paths connected.
\<close>

definition no_pipe :: "nat \<Rightarrow> error" where
  "no_pipe index = ConnectionError (''No Discord IPC pipe found at index '' @ String_nat index @ ''.'')"

text \<open>
  The transport after \<open>tryPath\<close> has dropped the previous socket and called
  \<open>net.connect\<close> on a path.
\<close>

definition tried :: "IPCTransport \<Rightarrow> string \<Rightarrow> nat \<Rightarrow> IPCTransport" where
  "tried t path timeout = t\<lparr>socket := None, attempts := attempts t @ [(path, timeout)]\<rparr>"

text \<open>
  The outcome of a slot as a function of its candidate paths: the first path that
  does not fall through decides.
\<close>

definition path_result :: "Host \<Rightarrow> nat \<Rightarrow> nat \<Rightarrow> string list \<Rightarrow> error + unit" where
  "path_result h index timeout rest =
     (case dropWhile (falls_through h) rest of
        [] \<Rightarrow> Inl (no_pipe index)
      | path # _ \<Rightarrow>
          (case net_connect h path of
             Connects \<Rightarrow> Inr ()
           | TimesOut \<Rightarrow>
               Inl (ConnectionError (''Connection timed out after '' @ String_nat timeout @ ''ms.''))
           | Errors code message \<Rightarrow> Inl (ConnectionError (''IPC connection error: '' @ message))))"

text \<open>
  The candidate paths handed to \<open>net.connect\<close>: those that fall through, and the
  first one that does not. The sockets destroyed are those of the tried paths that
  did not connect.
\<close>

definition paths_tried :: "Host \<Rightarrow> string list \<Rightarrow> string list" where
  "paths_tried h rest = take (Suc (length (takeWhile (falls_through h) rest))) rest"

definition paths_abandoned :: "Host \<Rightarrow> string list \<Rightarrow> string list" where
  "paths_abandoned h rest = filter (\<lambda>p. net_connect h p \<noteq> Connects) (paths_tried h rest)"

text \<open>
  The error of \<open>connect\<close> when no slot connected.
\<close>

definition scan_failed :: error where
  "scan_failed = ConnectionError
     ''Could not connect to Discord. No running instance found (scanned 10 pipes).''"

text \<open>
  Hosts for the examples: a Linux host with only \<open>XDG_RUNTIME_DIR\<close> set; the
  segments handed to \<open>join\<close> need no normalisation there, so \<open>join\<close> puts a slash
  between them. The hosts differ in what answers on which path.
\<close>

definition posix_join :: "string list \<Rightarrow> string" where
  "posix_join parts = (case parts of [] \<Rightarrow> ''.'' | p # ps \<Rightarrow> foldl (\<lambda>acc q. acc @ ''/'' @ q) p ps)"

definition example_host :: "(string \<Rightarrow> attempt) \<Rightarrow> Host" where
  "example_host net =
     \<lparr>platform = ''linux'', XDG_RUNTIME_DIR = Some ''/run/user/1000'', TMPDIR = None,
      TMP = None, TEMP = None, join = posix_join, net_connect = net\<rparr>"

definition snap_slot_3 :: "string \<Rightarrow> attempt" where
  "snap_slot_3 path =
     (if path = ''/run/user/1000/snap.discord/discord-ipc-3'' then Connects
      else Errors ''ENOENT'' ''connect ENOENT'')"

definition nothing_listens :: "string \<Rightarrow> attempt" where
  "nothing_listens path = Errors ''ECONNREFUSED'' ''connect ECONNREFUSED''"

definition first_path_hangs :: "string \<Rightarrow> attempt" where
  "first_path_hangs path =
     (if path = ''/run/user/1000/discord-ipc-0'' then TimesOut else Connects)"

definition refused_then_hangs :: "string \<Rightarrow> attempt" where
  "refused_then_hangs path =
     (if path = ''/run/user/1000/discord-ipc-0'' then Errors ''ECONNREFUSED'' ''connect ECONNREFUSED''
      else if path = ''/run/user/1000/app/com.discordapp.Discord/discord-ipc-0'' then TimesOut
      else Connects)"

section \<open>Client (client.ts)\<close>

datatype ConnectionState = disconnected | connecting | connected | ready

text \<open>
  \<open>ClientOptions\<close>, the argument of the constructor (\<open>None\<close> is a field left out), and
  the field \<open>options\<close> of the client.
\<close>

record ClientOptions =
  opt_heartbeatInterval :: "nat option"
  opt_connectionTimeout :: "nat option"
  opt_pipeIndex :: "nat option"

record Options =
  heartbeatInterval :: nat
  connectionTimeout :: nat

text \<open>
  An entry of \<open>pendingRequests\<close>. The functions \<open>resolve\<close> and \<open>reject\<close> of an entry
  belong to one promise; \<open>promise\<close> identifies it. \<open>timer\<close> is the handle returned by
  \<open>setTimeout\<close>.
\<close>

record PendingRequest =
  promise :: nat
  timer :: nat

text \<open>
  The callbacks the client hands to \<open>setTimeout\<close> and \<open>setInterval\<close>: the timeout of
  \<open>request\<close> (token, command and promise), the handshake timeout of \<open>login\<close>
  (promise), the delay of \<open>destroy\<close>, and the heartbeat.
\<close>

datatype task =
    RequestTimeout string string nat
  | HandshakeTimeout nat
  | GraceDelay
  | Heartbeat

text \<open>The notifications of \<open>ClientEvents\<close> with their arguments (\<open>None\<close> is \<open>undefined\<close>).\<close>

datatype event =
    ready_event "json option"
  | disconnected_event "json option"
  | error_event error
  | stateChange_event ConnectionState
  | rpcEvent_event "json option" "json option"

datatype settlement = Resolved "json option" | Rejected error

text \<open>What an asynchronous method returns: \<open>Promise.reject(e)\<close>, or a new promise.\<close>

datatype returned = Promise_reject error | Promise nat

text \<open>
  The client. The first six fields are those of the class (\<open>pendingRequests\<close> is a
  \<open>Map\<close>: keys are unique and kept in insertion order). The others are the part of
  the runtime the client acts on: \<open>timers\<close> the armed timers (handle, delay in
  milliseconds, callback), \<open>fresh\<close> the next unused handle or promise number,
  \<open>onReady\<close> the listeners registered by \<open>once('ready', onReady)\<close> (the timer and the
  promise of their \<open>login\<close>), \<open>emitted\<close> the notifications passed to \<open>emit\<close> and
  \<open>settled\<close> the calls of \<open>resolve\<close> and \<open>reject\<close>, in order. Observers only receive,
  and the \<open>error\<close> notification has a listener.
\<close>

record Client =
  transport :: IPCTransport
  options :: Options
  pendingRequests :: "(string \<times> PendingRequest) list"
  heartbeatTimer :: "nat option"
  state :: ConnectionState
  clientId :: "string option"
  timers :: "(nat \<times> nat \<times> task) list"
  fresh :: nat
  onReady :: "(nat \<times> nat) list"
  emitted :: "event list"
  settled :: "(nat \<times> settlement) list"

text \<open>
  What the platform supplies: \<open>Buffer.from(JSON.stringify(v))\<close>, \<open>process.pid\<close> and
  the host of the discovery.
\<close>

record Runtime =
  JSON_stringify :: "json \<Rightarrow> Buffer option"
  pid :: int
  host :: Host

definition new_Client :: "ClientOptions \<Rightarrow> Client" where
  "new_Client opts =
     \<lparr>transport = new_IPCTransport,
      options =
        \<lparr>heartbeatInterval =
           (case opt_heartbeatInterval opts of None \<Rightarrow> HEARTBEAT_INTERVAL | Some ms \<Rightarrow> ms),
         connectionTimeout =
           (case opt_connectionTimeout opts of None \<Rightarrow> 10000 | Some ms \<Rightarrow> ms)\<rparr>,
      pendingRequests = [], heartbeatTimer = None, state = disconnected, clientId = None,
      timers = [], fresh = 0, onReady = [], emitted = [], settled = []\<rparr>"

subsection \<open>Runtime primitives\<close>

definition emit :: "event \<Rightarrow> Client \<Rightarrow> Client" where
  "emit e c = c\<lparr>emitted := emitted c @ [e]\<rparr>"

definition settle :: "nat \<Rightarrow> settlement \<Rightarrow> Client \<Rightarrow> Client" where
  "settle p s c = c\<lparr>settled := settled c @ [(p, s)]\<rparr>"

definition new_promise :: "Client \<Rightarrow> nat \<times> Client" where
  "new_promise c = (fresh c, c\<lparr>fresh := Suc (fresh c)\<rparr>)"

text \<open>\<open>setTimeout\<close> and \<open>setInterval\<close> arm a timer under a new handle.\<close>

definition setTimeout :: "nat \<Rightarrow> task \<Rightarrow> Client \<Rightarrow> nat \<times> Client" where
  "setTimeout delay k c =
     (fresh c, c\<lparr>timers := timers c @ [(fresh c, delay, k)], fresh := Suc (fresh c)\<rparr>)"

text \<open>\<open>clearTimeout\<close> and \<open>clearInterval\<close>.\<close>

definition clearTimeout :: "nat \<Rightarrow> Client \<Rightarrow> Client" where
  "clearTimeout h c = c\<lparr>timers := AList.delete h (timers c)\<rparr>"

text \<open>
  Reading a property of a parsed value that is not \<open>null\<close>; \<open>None\<close> is \<open>undefined\<close>.
  Then the truth value of a value in a condition, and the operator \<open>??\<close>.
\<close>

fun get :: "json \<Rightarrow> string \<Rightarrow> json option" where
  "get (JObj kvs) k = map_of kvs k"
| "get v k = None"

definition get_opt :: "json option \<Rightarrow> string \<Rightarrow> json option" where
  "get_opt v k = (case v of None \<Rightarrow> None | Some x \<Rightarrow> get x k)"

fun truthy :: "json option \<Rightarrow> bool" where
  "truthy None = False"
| "truthy (Some JNull) = False"
| "truthy (Some (JBool b)) = b"
| "truthy (Some (JNum n)) = (n \<noteq> 0)"
| "truthy (Some (JStr s)) = (s \<noteq> [])"
| "truthy (Some (JArr vs)) = True"
| "truthy (Some (JObj kvs)) = True"

definition nullish :: "json option \<Rightarrow> bool" where
  "nullish v = (v = None \<or> v = Some JNull)"

definition coalesce :: "json option \<Rightarrow> json \<Rightarrow> json" where
  "coalesce v d = (if nullish v then d else (case v of Some x \<Rightarrow> x | None \<Rightarrow> d))"

text \<open>\<open>pendingRequests.get(key)\<close> and \<open>pendingRequests.delete(key)\<close> for a key read from a frame.\<close>

definition pending_get :: "(string \<times> PendingRequest) list \<Rightarrow> json option \<Rightarrow> PendingRequest option" where
  "pending_get m key = (case key of Some (JStr n) \<Rightarrow> map_of m n | _ \<Rightarrow> None)"

definition pending_delete ::
  "json option \<Rightarrow> (string \<times> PendingRequest) list \<Rightarrow> (string \<times> PendingRequest) list" where
  "pending_delete key m = (case key of Some (JStr n) \<Rightarrow> AList.delete n m | _ \<Rightarrow> m)"

subsection \<open>Internal methods\<close>

definition setState :: "ConnectionState \<Rightarrow> Client \<Rightarrow> Client" where
  "setState newState c =
     (if state c \<noteq> newState then emit (stateChange_event newState) (c\<lparr>state := newState\<rparr>)
      else c)"

definition stopHeartbeat :: "Client \<Rightarrow> Client" where
  "stopHeartbeat c =
     (case heartbeatTimer c of
        Some h \<Rightarrow> (clearTimeout h c)\<lparr>heartbeatTimer := None\<rparr>
      | None \<Rightarrow> c)"

definition startHeartbeat :: "Client \<Rightarrow> Client" where
  "startHeartbeat c =
     (case setTimeout (heartbeatInterval (options c)) Heartbeat (stopHeartbeat c) of
        (h, c') \<Rightarrow> c'\<lparr>heartbeatTimer := Some h\<rparr>)"

text \<open>
  \<open>rejectAllPending\<close>: the loop visits every entry of the map once, in insertion
  order, and deletes it.
\<close>

fun rejectAllPending_loop :: "string \<Rightarrow> (string \<times> PendingRequest) list \<Rightarrow> Client \<Rightarrow> Client" where
  "rejectAllPending_loop reason [] c = c"
| "rejectAllPending_loop reason ((nonce, pending) # rest) c =
     rejectAllPending_loop reason rest
       ((settle (promise pending) (Rejected (ConnectionError reason))
           (clearTimeout (timer pending) c))
          \<lparr>pendingRequests := AList.delete nonce (pendingRequests c)\<rparr>)"

definition rejectAllPending :: "string \<Rightarrow> Client \<Rightarrow> Client" where
  "rejectAllPending reason c = rejectAllPending_loop reason (pendingRequests c) c"

subsection \<open>Commands\<close>

text \<open>
  The object \<open>{ cmd, args, evt, nonce }\<close> as \<open>JSON.stringify\<close> sees it: a member whose
  value is \<open>undefined\<close> is left out.
\<close>

definition frame_payload :: "string \<Rightarrow> json option \<Rightarrow> string option \<Rightarrow> string \<Rightarrow> json" where
  "frame_payload cmd args evt nonce =
     JObj ([(''cmd'', JStr cmd)]
           @ (case args of None \<Rightarrow> [] | Some a \<Rightarrow> [(''args'', a)])
           @ (case evt of None \<Rightarrow> [] | Some e \<Rightarrow> [(''evt'', JStr e)])
           @ [(''nonce'', JStr nonce)])"

text \<open>
  \<open>request\<close>. \<open>nonce\<close> is the value of \<open>randomUUID()\<close>. An error raised by
  \<open>transport.send\<close> inside the executor rejects the new promise.
\<close>

definition request ::
  "Runtime \<Rightarrow> string \<Rightarrow> string \<Rightarrow> json option \<Rightarrow> string option \<Rightarrow> Client \<Rightarrow> returned \<times> Client" where
  "request rt nonce cmd args evt c =
     (if state c \<noteq> ready
      then (Promise_reject (StateError ''Client is not ready. Call login() first.''), c)
      else
        (case new_promise c of
           (p, c1) \<Rightarrow>
             (case setTimeout (connectionTimeout (options c1)) (RequestTimeout nonce cmd p) c1 of
                (h, c2) \<Rightarrow>
                  (let c3 = c2\<lparr>pendingRequests :=
                                AList.update nonce \<lparr>promise = p, timer = h\<rparr> (pendingRequests c2)\<rparr>
                   in (case send (JSON_stringify rt) (transport c3) (op_value Frame)
                               (frame_payload cmd args evt nonce) of
                         Inl e \<Rightarrow> (Promise p, settle p (Rejected e) c3)
                       | Inr t \<Rightarrow> (Promise p, c3\<lparr>transport := t\<rparr>))))))"

text \<open>The callback of the timer armed by \<open>request\<close>.\<close>

definition request_timeout :: "string \<Rightarrow> string \<Rightarrow> nat \<Rightarrow> Client \<Rightarrow> Client" where
  "request_timeout nonce cmd p c =
     settle p (Rejected (TimeoutError (''Request '' @ cmd @ '' timed out.'')))
       (c\<lparr>pendingRequests := AList.delete nonce (pendingRequests c)\<rparr>)"

definition clearActivity :: "Runtime \<Rightarrow> string \<Rightarrow> Client \<Rightarrow> returned \<times> Client" where
  "clearActivity rt nonce c =
     request rt nonce Command_SetActivity
       (Some (JObj [(''pid'', JNum (pid rt)), (''activity'', JNull)])) None c"

text \<open>\<open>ping\<close>; the second component is the error raised, if any.\<close>

definition ping :: "Runtime \<Rightarrow> string \<Rightarrow> Client \<Rightarrow> Client \<times> error option" where
  "ping rt nonce c =
     (if transport_connected (transport c) then
        (case send (JSON_stringify rt) (transport c) (op_value Ping) (JObj [(''nonce'', JStr nonce)]) of
           Inl e \<Rightarrow> (c, Some e)
         | Inr t \<Rightarrow> (c\<lparr>transport := t\<rparr>, None))
      else (c, None))"

subsection \<open>Teardown\<close>

text \<open>
  \<open>destroy\<close> runs in two parts. When the state is \<open>ready\<close> it first calls
  \<open>clearActivity\<close> and waits for that promise (and, after it was resolved, for a delay
  of 50 ms); in every other state, and after the wait, it runs the four statements
  that follow the \<open>try\<close> block, which are \<open>destroy_finish\<close>.
\<close>

definition destroy_finish :: "Client \<Rightarrow> Client" where
  "destroy_finish c =
     (let c1 = stopHeartbeat c;
          c2 = rejectAllPending ''Client destroyed.'' c1;
          c3 = c2\<lparr>transport := transport_destroy (transport c2)\<rparr>
      in setState disconnected c3)"

datatype progress = Completed | Awaiting returned

definition destroy :: "Runtime \<Rightarrow> string \<Rightarrow> Client \<Rightarrow> progress \<times> Client" where
  "destroy rt nonce c =
     (if state c = ready then
        (case clearActivity rt nonce c of (r, c') \<Rightarrow> (Awaiting r, c'))
      else (Completed, destroy_finish c))"

text \<open>
  The rest of \<open>destroy\<close> once the promise of \<open>clearActivity\<close> is settled: after a
  resolution the delay is armed, and \<open>destroy_finish\<close> runs when it fires; after a
  rejection the \<open>catch\<close> block is empty and \<open>destroy_finish\<close> runs.
\<close>

definition destroy_resume :: "settlement \<Rightarrow> Client \<Rightarrow> Client" where
  "destroy_resume s c =
     (case s of
        Resolved d \<Rightarrow> snd (setTimeout 50 GraceDelay c)
      | Rejected e \<Rightarrow> destroy_finish c)"

subsection \<open>Connection lifecycle\<close>

text \<open>
  \<open>login\<close> in its three parts: up to the call of \<open>transport.connect\<close>; the outcome of
  that call; and the executor of the promise it returns.
\<close>

definition login_start :: "string \<Rightarrow> Client \<Rightarrow> error + Client" where
  "login_start cid c =
     (if state c \<noteq> disconnected
      then Inl (StateError ''Client is already connected or connecting. Call destroy() first.'')
      else Inr (setState connecting (c\<lparr>clientId := Some cid\<rparr>)))"

definition login_connect :: "Runtime \<Rightarrow> Client \<Rightarrow> (error + unit) \<times> Client" where
  "login_connect rt c =
     (case connect (host rt) None (Some (connectionTimeout (options c))) (transport c) of
        (Inr u, t) \<Rightarrow> (Inr (), setState connected (c\<lparr>transport := t\<rparr>))
      | (Inl e, t) \<Rightarrow> (Inl e, setState disconnected (c\<lparr>transport := t\<rparr>)))"

definition login_handshake :: "Runtime \<Rightarrow> string \<Rightarrow> Client \<Rightarrow> nat \<times> Client" where
  "login_handshake rt cid c =
     (case new_promise c of
        (p, c1) \<Rightarrow>
          (case setTimeout (connectionTimeout (options c1)) (HandshakeTimeout p) c1 of
             (h, c2) \<Rightarrow>
               (let c3 = c2\<lparr>onReady := onReady c2 @ [(h, p)]\<rparr>
                in (case send (JSON_stringify rt) (transport c3) (op_value Handshake)
                            (JObj [(''v'', JNum IPC_VERSION), (''client_id'', JStr cid)]) of
                      Inl e \<Rightarrow> (p, settle p (Rejected e) c3)
                    | Inr t \<Rightarrow> (p, c3\<lparr>transport := t\<rparr>)))))"

definition login :: "Runtime \<Rightarrow> string \<Rightarrow> Client \<Rightarrow> returned \<times> Client" where
  "login rt cid c =
     (case login_start cid c of
        Inl e \<Rightarrow> (Promise_reject e, c)
      | Inr c1 \<Rightarrow>
          (case login_connect rt c1 of
             (Inl e, c2) \<Rightarrow> (Promise_reject e, c2)
           | (Inr u, c2) \<Rightarrow>
               (case login_handshake rt cid c2 of (p, c3) \<Rightarrow> (Promise p, c3))))"

text \<open>
  \<open>emit('ready', data)\<close>: the notification, and the listeners \<open>onReady\<close> of \<open>login\<close>,
  each of which runs once.
\<close>

fun run_onReady :: "json option \<Rightarrow> (nat \<times> nat) list \<Rightarrow> Client \<Rightarrow> Client" where
  "run_onReady d [] c = c"
| "run_onReady d ((h, p) # ls) c =
     run_onReady d ls
       (settle p (Resolved d) (startHeartbeat (setState ready (clearTimeout h c))))"

definition emit_ready :: "json option \<Rightarrow> Client \<Rightarrow> Client" where
  "emit_ready d c = run_onReady d (onReady c) ((emit (ready_event d) c)\<lparr>onReady := []\<rparr>)"

subsection \<open>Incoming packets\<close>

text \<open>
  \<open>onPacket\<close>. \<open>raw\<close> is the parsed payload; reading a property of \<open>null\<close> raises a
  type error. The second component of the result is the error raised, if any; the
  client is the one reached when it was raised. \<open>nonce\<close> is the value of
  \<open>randomUUID()\<close> for the \<open>destroy\<close> started by a close packet.
\<close>

definition onPacket :: "Runtime \<Rightarrow> string \<Rightarrow> Client \<Rightarrow> nat \<Rightarrow> json \<Rightarrow> Client \<times> error option" where
  "onPacket rt nonce c op raw =
     (if op = op_value Close then
        (if raw = JNull then (c, Some TypeError)
         else (snd (destroy rt nonce (emit (disconnected_event (get raw ''message'')) c)), None))
      else if op = op_value Ping then
        (case send (JSON_stringify rt) (transport c) (op_value Pong) raw of
           Inl e \<Rightarrow> (c, Some e)
         | Inr t \<Rightarrow> (c\<lparr>transport := t\<rparr>, None))
      else if op \<noteq> op_value Frame then (c, None)
      else if raw = JNull then (c, Some TypeError)
      else
        (let frame_evt = get raw ''evt'';
             frame_nonce = get raw ''nonce'';
             frame_data = get raw ''data''
         in
         if frame_evt = Some (JStr RPCEvent_Ready) then (emit_ready frame_data c, None)
         else if frame_evt = Some (JStr RPCEvent_Error) \<and> \<not> truthy frame_nonce then
           (if nullish frame_data then (c, Some TypeError)
            else (emit (error_event
                          (CommandError
                             (ToString (coalesce (get_opt frame_data ''message'')
                                          (JStr ''Unknown RPC error'')))
                             (coalesce (get_opt frame_data ''code'') (JNum 0)))) c, None))
         else
           (case (if truthy frame_nonce then pending_get (pendingRequests c) frame_nonce else None) of
              Some pending \<Rightarrow>
                (let c1 = clearTimeout (timer pending)
                            (c\<lparr>pendingRequests := pending_delete frame_nonce (pendingRequests c)\<rparr>)
                 in
                 if frame_evt = Some (JStr RPCEvent_Error) then
                   (if nullish frame_data then (c1, Some TypeError)
                    else (settle (promise pending)
                            (Rejected
                               (CommandError
                                  (ToString (coalesce (get_opt frame_data ''message'')
                                               (JStr ''Command failed'')))
                                  (coalesce (get_opt frame_data ''code'') (JNum 0)))) c1, None))
                 else (settle (promise pending) (Resolved frame_data) c1, None))
            | None \<Rightarrow>
                (if get raw ''cmd'' = Some (JStr Command_Dispatch) \<and> truthy frame_evt
                 then (emit (rpcEvent_event frame_evt frame_data) c, None)
                 else (c, None)))))"

text \<open>
  \<open>onTransportClose\<close>, and the \<open>close\<close> listener of the socket, which clears the
  transport and calls it.
\<close>

definition onTransportClose :: "Client \<Rightarrow> Client" where
  "onTransportClose c =
     (let c1 = rejectAllPending ''Transport connection closed.'' (stopHeartbeat c) in
      if state c1 \<noteq> disconnected
      then emit (disconnected_event (Some (JStr ''Connection closed unexpectedly.'')))
             (setState disconnected c1)
      else c1)"

definition socket_closed :: "Client \<Rightarrow> Client" where
  "socket_closed c =
     onTransportClose (c\<lparr>transport := (transport c)\<lparr>socket := None, buffer := Buffer_alloc 0\<rparr>\<rparr>)"

subsection \<open>Timers\<close>

text \<open>
  The timer with handle \<open>h\<close> fires: a timeout is disarmed and its callback runs; the
  heartbeat stays armed. \<open>nonce\<close> is the value of \<open>randomUUID()\<close> where the callback
  asks for one.
\<close>

definition timer_fires :: "Runtime \<Rightarrow> string \<Rightarrow> nat \<Rightarrow> Client \<Rightarrow> Client" where
  "timer_fires rt nonce h c =
     (case map_of (timers c) h of
        None \<Rightarrow> c
      | Some (delay, Heartbeat) \<Rightarrow> fst (ping rt nonce c)
      | Some (delay, RequestTimeout n cmd p) \<Rightarrow> request_timeout n cmd p (clearTimeout h c)
      | Some (delay, HandshakeTimeout p) \<Rightarrow>
          snd (destroy rt nonce
                 (settle p (Rejected (TimeoutError ''Handshake timed out.'')) (clearTimeout h c)))
      | Some (delay, GraceDelay) \<Rightarrow> destroy_finish (clearTimeout h c))"

subsection \<open>Histories\<close>

text \<open>
  The clients that can arise from the client constructed with the options \<open>opts\<close>:
  the new client, and the client after any method call, continuation, packet, timer
  or close of the socket, in any order. The last rule is for what happens inside the
  transport between these steps (bytes arriving in the buffer, the peer ending the
  socket).
\<close>

inductive reachable_from :: "Runtime \<Rightarrow> ClientOptions \<Rightarrow> Client \<Rightarrow> bool"
  for rt :: Runtime and opts :: ClientOptions where
  created: "reachable_from rt opts (new_Client opts)"
| login_started:
    "reachable_from rt opts c \<Longrightarrow> login_start cid c = Inr c' \<Longrightarrow> reachable_from rt opts c'"
| login_connected:
    "reachable_from rt opts c \<Longrightarrow> reachable_from rt opts (snd (login_connect rt c))"
| login_handshaken:
    "reachable_from rt opts c \<Longrightarrow> reachable_from rt opts (snd (login_handshake rt cid c))"
| destroyed:
    "reachable_from rt opts c \<Longrightarrow> reachable_from rt opts (snd (destroy rt nonce c))"
| destroy_resumed:
    "reachable_from rt opts c \<Longrightarrow> reachable_from rt opts (destroy_resume s c)"
| requested:
    "reachable_from rt opts c \<Longrightarrow> reachable_from rt opts (snd (request rt nonce cmd args evt c))"
| pinged:
    "reachable_from rt opts c \<Longrightarrow> reachable_from rt opts (fst (ping rt nonce c))"
| packet:
    "reachable_from rt opts c \<Longrightarrow> reachable_from rt opts (fst (onPacket rt nonce c op raw))"
| timer:
    "reachable_from rt opts c \<Longrightarrow> reachable_from rt opts (timer_fires rt nonce h c)"
| closed:
    "reachable_from rt opts c \<Longrightarrow> reachable_from rt opts (socket_closed c)"
| transport_changed:
    "reachable_from rt opts c \<Longrightarrow> reachable_from rt opts (c\<lparr>transport := t\<rparr>)"

text \<open>The clients that can arise, whatever the options of the constructor.\<close>

definition reachable :: "Runtime \<Rightarrow> Client \<Rightarrow> bool" where
  "reachable rt c = (\<exists>opts. reachable_from rt opts c)"

text \<open>The states carried by the \<open>stateChange\<close> notifications of a log, in order.\<close>

fun stateChanges :: "event list \<Rightarrow> ConnectionState list" where
  "stateChanges [] = []"
| "stateChanges (stateChange_event s # es) = s # stateChanges es"
| "stateChanges (e # es) = stateChanges es"

subsection \<open>Examples\<close>

text \<open>
  A runtime for the examples: the JSON text codec above, a process id, and a host.
\<close>

definition example_runtime :: "(string \<Rightarrow> attempt) \<Rightarrow> Runtime" where
  "example_runtime net = \<lparr>JSON_stringify = example_stringify, pid = 4242, host = example_host net\<rparr>"

subsection \<open>Invariants\<close>

text \<open>
  Four invariants of the clients that can arise. The states of the \<open>stateChange\<close>
  notifications emitted so far differ from one to the next, and the last of them is
  the current state. A heartbeat that is armed is the one \<open>heartbeatTimer\<close> holds. The
  handles of the armed timers are below the next unused one. The delay of every armed
  timeout of a request or of a handshake is the option \<open>connectionTimeout\<close>.
\<close>

definition sc_inv :: "Client \<Rightarrow> bool" where
  "sc_inv c =
     (distinct_adj (stateChanges (emitted c)) \<and>
      (stateChanges (emitted c) = [] \<or> last (stateChanges (emitted c)) = state c))"

definition hb_inv :: "Client \<Rightarrow> bool" where
  "hb_inv c = list_all (\<lambda>t. snd (snd t) \<noteq> Heartbeat \<or> heartbeatTimer c = Some (fst t)) (timers c)"

definition fresh_inv :: "Client \<Rightarrow> bool" where
  "fresh_inv c = list_all (\<lambda>t. fst t < fresh c) (timers c)"

fun is_timeout :: "task \<Rightarrow> bool" where
  "is_timeout (RequestTimeout nonce cmd p) = True"
| "is_timeout (HandshakeTimeout p) = True"
| "is_timeout GraceDelay = False"
| "is_timeout Heartbeat = False"

definition timeout_inv :: "Client \<Rightarrow> bool" where
  "timeout_inv c =
     list_all (\<lambda>t. \<not> is_timeout (snd (snd t)) \<or> fst (snd t) = connectionTimeout (options c))
       (timers c)"

text \<open>
  A step from \<open>c\<close> to \<open>c'\<close> that keeps each of the invariants, and the options.
\<close>

definition preserves :: "Client \<Rightarrow> Client \<Rightarrow> bool" where
  "preserves c c' =
     ((sc_inv c \<longrightarrow> sc_inv c') \<and> (hb_inv c \<longrightarrow> hb_inv c') \<and> (fresh_inv c \<longrightarrow> fresh_inv c') \<and>
      (timeout_inv c \<longrightarrow> timeout_inv c') \<and> options c' = options c)"

text \<open>
  A session for the examples, on the host where the third candidate path of slot 3
  answers: a new client with no options, then the three parts of \<open>login\<close>, then the
  \<open>READY\<close> frame of the peer.
\<close>

definition example_options :: ClientOptions where
  "example_options =
     \<lparr>opt_heartbeatInterval = None, opt_connectionTimeout = None, opt_pipeIndex = None\<rparr>"

definition session_connecting :: Client where
  "session_connecting = setState connecting ((new_Client example_options)\<lparr>clientId := Some ''42''\<rparr>)"

definition session_connected :: Client where
  "session_connected = snd (login_connect (example_runtime snap_slot_3) session_connecting)"

definition session_handshaken :: Client where
  "session_handshaken = snd (login_handshake (example_runtime snap_slot_3) ''42'' session_connected)"

definition ready_frame :: json where
  "ready_frame = JObj [(''cmd'', JStr ''DISPATCH''), (''evt'', JStr ''READY''), (''nonce'', JNull),
                       (''data'', JObj [(''v'', JNum 1)])]"

definition session_ready :: Client where
  "session_ready =
     fst (onPacket (example_runtime snap_slot_3) ''c0de'' session_handshaken 1 ready_frame)"

text \<open>
  The client of that session after a request was sent under the token \<open>7f3a\<close> with
  the given command, and after a second request was sent under the token \<open>b2b2\<close>.
\<close>

definition example_client :: "string \<Rightarrow> Client" where
  "example_client cmd =
     snd (request (example_runtime snap_slot_3) ''7f3a'' cmd None None session_ready)"





text \<open>
  The session of the examples for a client constructed with any options, and
  options that set the connection timeout.
\<close>

definition connecting_with :: "ClientOptions \<Rightarrow> Client" where
  "connecting_with opts = setState connecting ((new_Client opts)\<lparr>clientId := Some ''42''\<rparr>)"

definition connected_with :: "ClientOptions \<Rightarrow> Client" where
  "connected_with opts = snd (login_connect (example_runtime snap_slot_3) (connecting_with opts))"

definition handshaken_with :: "ClientOptions \<Rightarrow> Client" where
  "handshaken_with opts =
     snd (login_handshake (example_runtime snap_slot_3) ''42'' (connected_with opts))"

definition ready_with :: "ClientOptions \<Rightarrow> Client" where
  "ready_with opts =
     fst (onPacket (example_runtime snap_slot_3) ''c0de'' (handshaken_with opts) 1 ready_frame)"

definition custom_options :: ClientOptions where
  "custom_options =
     \<lparr>opt_heartbeatInterval = None, opt_connectionTimeout = Some 2500, opt_pipeIndex = None\<rparr>"

chapter \<open>Properties\<close>

section \<open>Framing: little-endian headers\<close>

lemma unat_le32_sum:
  assumes "v < 2 ^ 32"
  shows "unat (of_nat v :: byte) + 256 * unat (of_nat (v div 256) :: byte)
         + 65536 * unat (of_nat (v div 65536) :: byte)
         + 16777216 * unat (of_nat (v div 16777216) :: byte) = v"
proof -
  have b: "\<And>n. unat (of_nat n :: byte) = n mod 256"
    by (simp add: unat_of_nat)
  have "v div 16777216 < 256" using assms by simp
  then have h3: "v div 16777216 mod 256 = v div 16777216" by simp
  have e2: "v div 65536 div 256 = v div 16777216"
    using div_mult2_eq[of v 65536 256] by simp
  have e1: "v div 256 div 256 = v div 65536"
    using div_mult2_eq[of v 256 256] by simp
  have d2: "v div 65536 = (v div 16777216) * 256 + v div 65536 mod 256"
    using div_mult_mod_eq[of "v div 65536" 256] e2 by simp
  have d1: "v div 256 = (v div 65536) * 256 + v div 256 mod 256"
    using div_mult_mod_eq[of "v div 256" 256] e1 by simp
  have d0: "v = (v div 256) * 256 + v mod 256"
    by simp
  show ?thesis
    unfolding b h3 using d0 d1 d2 by linarith
qed

lemma length_le32 [simp]: "length (le32 v) = 4"
  by (simp add: le32_def)

lemma readUInt32LE_le32:
  assumes "v < 2 ^ 32"
  shows "readUInt32LE (pre @ le32 v @ post) (length pre) = Inr v"
proof -
  have "\<And>i. i < 4 \<Longrightarrow> (pre @ le32 v @ post) ! (length pre + i) = le32 v ! i"
    by (simp add: nth_append)
  from this[of 0] this[of 1] this[of 2] this[of 3]
  show ?thesis
    using unat_le32_sum[OF assms]
    by (simp add: readUInt32LE_def le32_def)
qed

lemma encode_eq:
  assumes "stringify p = Some data" "op < 2 ^ 32" "length data < 2 ^ 32"
  shows "encode stringify op p = Inr (le32 op @ le32 (length data) @ data)"
  using assms
  by (simp add: encode_def writeUInt32LE_def Buffer_alloc_def HEADER_SIZE_def)

section \<open>Framing: the receive loop\<close>

lemma processBuffer_short:
  "length buf < HEADER_SIZE \<Longrightarrow> processBuffer parse buf = ([], buf, None)"
  by (subst processBuffer.simps) simp

lemma processBuffer_never_throws: "snd (snd (processBuffer parse buf)) = None"
proof (induction parse buf rule: processBuffer.induct)
  case (1 parse buf)
  show ?case
  proof (cases "length buf \<ge> HEADER_SIZE")
    case False
    then show ?thesis by (simp add: processBuffer_short)
  next
    case True
    then have l: "8 \<le> length buf" by (simp add: HEADER_SIZE_def)
    obtain op where op: "readUInt32LE buf 0 = Inr op"
      using l by (simp add: readUInt32LE_def)
    obtain len where len: "readUInt32LE buf 4 = Inr len"
      using l by (simp add: readUInt32LE_def)
    show ?thesis
    proof (cases "length buf < HEADER_SIZE + len")
      case True
      with \<open>length buf \<ge> HEADER_SIZE\<close> op len show ?thesis
        by (subst processBuffer.simps) simp
    next
      case False
      from "1.IH"[OF \<open>length buf \<ge> HEADER_SIZE\<close> op len refl False refl refl]
      have "snd (snd (processBuffer parse (subarray_from buf (HEADER_SIZE + len)))) = None" .
      with \<open>length buf \<ge> HEADER_SIZE\<close> op len False show ?thesis
        by (subst processBuffer.simps) (auto simp: Let_def split: prod.splits option.splits)
    qed
  qed
qed

lemma processBuffer_packet:
  assumes "op < 2 ^ 32" "length raw < 2 ^ 32"
  shows "processBuffer parse (le32 op @ le32 (length raw) @ raw @ rest) =
           (case processBuffer parse rest of
              (ms, buf', thrown) \<Rightarrow>
                (case parse raw of None \<Rightarrow> (ms, buf', thrown)
                 | Some payload \<Rightarrow> ((op, payload) # ms, buf', thrown)))"
proof -
  let ?buf = "le32 op @ le32 (length raw) @ raw @ rest"
  have r0: "readUInt32LE ?buf 0 = Inr op"
    using readUInt32LE_le32[OF assms(1), of "[]"] by simp
  have r4: "readUInt32LE ?buf 4 = Inr (length raw)"
    using readUInt32LE_le32[OF assms(2), of "le32 op" "raw @ rest"] by simp
  have s1: "subarray ?buf HEADER_SIZE (HEADER_SIZE + length raw) = raw"
    by (simp add: subarray_def HEADER_SIZE_def)
  have s2: "subarray_from ?buf (HEADER_SIZE + length raw) = rest"
    by (simp add: subarray_from_def HEADER_SIZE_def)
  show ?thesis
    by (subst processBuffer.simps) (simp add: r0 r4 s1 s2 Let_def, simp add: HEADER_SIZE_def)
qed

lemma readUInt32LE_append:
  "offset + 4 \<le> length buf \<Longrightarrow> readUInt32LE (buf @ chunk) offset = readUInt32LE buf offset"
  by (simp add: readUInt32LE_def nth_append)

lemma processBuffer_append:
  "processBuffer parse (buf @ chunk) =
     (case processBuffer parse buf of
        (ms, b, thrown) \<Rightarrow>
          (case processBuffer parse (b @ chunk) of
             (ms', b', thrown') \<Rightarrow> (ms @ ms', b', thrown')))"
proof (induction parse buf rule: processBuffer.induct)
  case (1 parse buf)
  show ?case
  proof (cases "length buf \<ge> HEADER_SIZE")
    case False
    then show ?thesis by (simp add: processBuffer_short split: prod.splits)
  next
    case True
    then have l: "8 \<le> length buf" by (simp add: HEADER_SIZE_def)
    obtain op where op: "readUInt32LE buf 0 = Inr op"
      using l by (simp add: readUInt32LE_def)
    obtain len where len: "readUInt32LE buf 4 = Inr len"
      using l by (simp add: readUInt32LE_def)
    have op': "readUInt32LE (buf @ chunk) 0 = Inr op"
      using op l by (simp add: readUInt32LE_append)
    have len': "readUInt32LE (buf @ chunk) 4 = Inr len"
      using len l by (simp add: readUInt32LE_append)
    show ?thesis
    proof (cases "length buf < HEADER_SIZE + len")
      case True
      with \<open>length buf \<ge> HEADER_SIZE\<close> op len
      have "processBuffer parse buf = ([], buf, None)"
        by (subst processBuffer.simps) simp
      then show ?thesis by (simp split: prod.splits)
    next
      case False
      have s1: "subarray (buf @ chunk) HEADER_SIZE (HEADER_SIZE + len)
                  = subarray buf HEADER_SIZE (HEADER_SIZE + len)"
        using False by (simp add: subarray_def)
      have s2: "subarray_from (buf @ chunk) (HEADER_SIZE + len)
                  = subarray_from buf (HEADER_SIZE + len) @ chunk"
        using False by (simp add: subarray_from_def)
      note IH = "1.IH"[OF \<open>length buf \<ge> HEADER_SIZE\<close> op len refl False refl refl]
      have lhs: "processBuffer parse (buf @ chunk) =
          (case processBuffer parse (subarray_from buf (HEADER_SIZE + len) @ chunk) of
             (ms, buf', thrown) \<Rightarrow>
               (case parse (subarray buf HEADER_SIZE (HEADER_SIZE + len)) of
                  None \<Rightarrow> (ms, buf', thrown)
                | Some payload \<Rightarrow> ((op, payload) # ms, buf', thrown)))"
        using True False op' len'
        by (subst processBuffer.simps) (simp add: Let_def s1 s2)
      have rhs: "processBuffer parse buf =
          (case processBuffer parse (subarray_from buf (HEADER_SIZE + len)) of
             (ms, buf', thrown) \<Rightarrow>
               (case parse (subarray buf HEADER_SIZE (HEADER_SIZE + len)) of
                  None \<Rightarrow> (ms, buf', thrown)
                | Some payload \<Rightarrow> ((op, payload) # ms, buf', thrown)))"
        using True False op len
        by (subst processBuffer.simps) (simp add: Let_def)
      show ?thesis
        unfolding lhs rhs IH
        by (simp split: prod.splits option.splits)
    qed
  qed
qed

lemma processBuffer_settled:
  "processBuffer parse buf = (ms, b, thrown) \<Longrightarrow> processBuffer parse b = ([], b, None)"
proof (induction parse buf arbitrary: ms b thrown rule: processBuffer.induct)
  case (1 parse buf)
  show ?case
  proof (cases "length buf \<ge> HEADER_SIZE")
    case False
    with "1.prems" show ?thesis by (simp add: processBuffer_short)
  next
    case True
    then have l: "8 \<le> length buf" by (simp add: HEADER_SIZE_def)
    obtain op where op: "readUInt32LE buf 0 = Inr op"
      using l by (simp add: readUInt32LE_def)
    obtain len where len: "readUInt32LE buf 4 = Inr len"
      using l by (simp add: readUInt32LE_def)
    show ?thesis
    proof (cases "length buf < HEADER_SIZE + len")
      case True
      with \<open>length buf \<ge> HEADER_SIZE\<close> op len
      have "processBuffer parse buf = ([], buf, None)"
        by (subst processBuffer.simps) simp
      with "1.prems" show ?thesis by simp
    next
      case False
      note IH = "1.IH"[OF \<open>length buf \<ge> HEADER_SIZE\<close> op len refl False refl refl]
      obtain ms1 b1 t1 where r: "processBuffer parse (subarray_from buf (HEADER_SIZE + len)) = (ms1, b1, t1)"
        by (cases "processBuffer parse (subarray_from buf (HEADER_SIZE + len))") auto
      have "processBuffer parse buf =
          (case parse (subarray buf HEADER_SIZE (HEADER_SIZE + len)) of
                  None \<Rightarrow> (ms1, b1, t1)
                | Some payload \<Rightarrow> ((op, payload) # ms1, b1, t1))"
        using True False op len r
        by (subst processBuffer.simps) (simp add: Let_def)
      with "1.prems" have "b = b1" by (auto split: option.splits)
      with IH[OF r] show ?thesis by simp
    qed
  qed
qed

lemma receive_eq_processBuffer:
  assumes "processBuffer parse (buffer t) = ([], buffer t, None)"
  shows "receive parse t chunks =
           (case processBuffer parse (buffer t @ concat chunks) of
              (ms, b, thrown) \<Rightarrow> (ms, t\<lparr>buffer := b\<rparr>, thrown))"
  using assms
proof (induction chunks arbitrary: t)
  case Nil
  then show ?case by simp
next
  case (Cons chunk chunks)
  obtain ms b thrown where r: "processBuffer parse (buffer t @ chunk) = (ms, b, thrown)"
    by (cases "processBuffer parse (buffer t @ chunk)") auto
  have thrown: "thrown = None"
    using processBuffer_never_throws[of parse "buffer t @ chunk"] r by simp
  have settled: "processBuffer parse (buffer (t\<lparr>buffer := b\<rparr>)) = ([], buffer (t\<lparr>buffer := b\<rparr>), None)"
    using processBuffer_settled[OF r] by simp
  have app: "processBuffer parse ((buffer t @ chunk) @ concat chunks) =
               (case processBuffer parse (b @ concat chunks) of
                  (ms', b', thrown') \<Rightarrow> (ms @ ms', b', thrown'))"
    by (subst processBuffer_append) (simp add: r)
  show ?case
    using Cons.IH[OF settled] app
    by (simp add: on_data_def r thrown split: prod.splits)
qed

section \<open>Framing: round trip and malformed payloads\<close>

lemma op_value_u32: "op_value op < 2 ^ 32"
  by (cases op) simp_all

lemma processBuffer_header:
  assumes "length header = HEADER_SIZE" "readUInt32LE header 4 = Inr (length raw)"
  shows "\<exists>op. readUInt32LE header 0 = Inr op \<and>
           processBuffer parse (header @ raw @ rest) =
           (case processBuffer parse rest of
              (ms, buf', thrown) \<Rightarrow>
                (case parse raw of None \<Rightarrow> (ms, buf', thrown)
                 | Some payload \<Rightarrow> ((op, payload) # ms, buf', thrown)))"
proof -
  let ?buf = "header @ raw @ rest"
  have l: "length header = 8" using assms(1) by (simp add: HEADER_SIZE_def)
  obtain op where op: "readUInt32LE header 0 = Inr op"
    using l by (simp add: readUInt32LE_def)
  have r0: "readUInt32LE ?buf 0 = Inr op"
    using op l by (simp add: readUInt32LE_append)
  have r4: "readUInt32LE ?buf 4 = Inr (length raw)"
    using assms(2) l by (simp add: readUInt32LE_append)
  have s1: "subarray ?buf HEADER_SIZE (HEADER_SIZE + length raw) = raw"
    using l by (simp add: subarray_def HEADER_SIZE_def)
  have s2: "subarray_from ?buf (HEADER_SIZE + length raw) = rest"
    using l by (simp add: subarray_from_def HEADER_SIZE_def)
  have "processBuffer parse ?buf =
           (case processBuffer parse rest of
              (ms, buf', thrown) \<Rightarrow>
                (case parse raw of None \<Rightarrow> (ms, buf', thrown)
                 | Some payload \<Rightarrow> ((op, payload) # ms, buf', thrown)))"
    using l by (subst processBuffer.simps) (simp add: r0 r4 s1 s2 Let_def, simp add: HEADER_SIZE_def)
  with op show ?thesis by blast
qed

lemma processBuffer_encoded:
  assumes "stringify payload = Some data" "parse data = Some payload"
    "op < 2 ^ 32" "length data < 2 ^ 32"
  shows "encode stringify op payload = Inr (le32 op @ le32 (length data) @ data)"
    and "processBuffer parse (le32 op @ le32 (length data) @ data) = ([(op, payload)], [], None)"
proof -
  show "encode stringify op payload = Inr (le32 op @ le32 (length data) @ data)"
    using assms by (simp add: encode_eq)
  have "processBuffer parse (le32 op @ le32 (length data) @ data @ []) =
          ([(op, payload)], [], None)"
    by (subst processBuffer_packet[OF assms(3,4)])
       (simp add: assms(2) processBuffer_short HEADER_SIZE_def)
  then show "processBuffer parse (le32 op @ le32 (length data) @ data) = ([(op, payload)], [], None)"
    by simp
qed

text \<open>
  Claim C1. A payload is JSON-serialisable when the platform gives it a JSON text and
  reads that text back as the same payload. For every opcode and every such payload,
  \<open>send\<close> writes one packet (the 8-byte little-endian header of opcode and payload
  length, then the payload text), and a transport with an empty accumulation buffer
  that receives the bytes of this packet, cut into chunks in any way (empty chunks
  included) and delivered one \<open>data\<close> event at a time, hands exactly the one message
  (opcode, payload) to its packet handler, ends with an empty buffer and raises
  nothing. The length bound is the range of the header's length field; a JSON text of
  the platform is shorter.
\<close>

theorem framing_round_trip:
  assumes "stringify payload = Some data" and "parse data = Some payload"
    and "length data < 2 ^ 32"
    and "transport_connected sender" and "buffer receiver = []"
  shows "\<exists>packet.
           send stringify sender (op_value op) payload
             = Inr (sender\<lparr>written := written sender @ [packet]\<rparr>) \<and>
           (\<forall>chunks. concat chunks = packet \<longrightarrow>
              receive parse receiver chunks = ([(op_value op, payload)], receiver, None))"
proof -
  let ?packet = "le32 (op_value op) @ le32 (length data) @ data"
  note enc = processBuffer_encoded[where stringify=stringify and parse=parse and payload=payload and data=data and op="op_value op", OF assms(1,2) op_value_u32 assms(3)]
  have snd: "send stringify sender (op_value op) payload
               = Inr (sender\<lparr>written := written sender @ [?packet]\<rparr>)"
    using assms(4) enc(1) by (simp add: send_def)
  have settled: "processBuffer parse (buffer receiver) = ([], buffer receiver, None)"
    using assms(5) by (simp add: processBuffer_short HEADER_SIZE_def)
  have same: "receiver\<lparr>buffer := []\<rparr> = receiver"
    using assms(5) by (cases receiver) simp
  have "receive parse receiver chunks = ([(op_value op, payload)], receiver, None)"
    if "concat chunks = ?packet" for chunks
    using receive_eq_processBuffer[OF settled, of chunks] that enc(2) assms(5) same
    by simp
  with snd show ?thesis by blast
qed

theorem framing_round_trip_witness:
  "example_stringify (JObj [(''v'', JNum 1), (''client_id'', JStr ''42'')])
     = Some (bytes_of ''{\"v\":1,\"client_id\":\"42\"}'') \<and>
   example_parse (bytes_of ''{\"v\":1,\"client_id\":\"42\"}'')
     = Some (JObj [(''v'', JNum 1), (''client_id'', JStr ''42'')]) \<and>
   length (bytes_of ''{\"v\":1,\"client_id\":\"42\"}'') < 2 ^ 32 \<and>
   transport_connected
     (new_IPCTransport\<lparr>socket := Some \<lparr>sock_path = ''/tmp/discord-ipc-0'', destroyed = False\<rparr>\<rparr>) \<and>
   buffer new_IPCTransport = [] \<and>
   receive example_parse new_IPCTransport
     [take 3 (le32 0 @ le32 24 @ bytes_of ''{\"v\":1,\"client_id\":\"42\"}''),
      [],
      drop 3 (le32 0 @ le32 24 @ bytes_of ''{\"v\":1,\"client_id\":\"42\"}'')]
     = ([(0, JObj [(''v'', JNum 1), (''client_id'', JStr ''42'')])], new_IPCTransport, None)"
proof -
  let ?p = "JObj [(''v'', JNum 1), (''client_id'', JStr ''42'')]"
  let ?d = "bytes_of ''{\"v\":1,\"client_id\":\"42\"}''"
  let ?s = "new_IPCTransport\<lparr>socket := Some \<lparr>sock_path = ''/tmp/discord-ipc-0'', destroyed = False\<rparr>\<rparr>"
  have h1: "example_stringify ?p = Some ?d" by code_simp
  have h2: "example_parse ?d = Some ?p" by code_simp
  have len: "length ?d = 24" by (simp add: bytes_of_def)
  have h3: "length ?d < 2 ^ 32" by (simp add: len)
  have h4: "transport_connected ?s" by (simp add: transport_connected_def)
  have h5: "buffer new_IPCTransport = []" by (simp add: new_IPCTransport_def Buffer_alloc_def)
  from framing_round_trip[where stringify=example_stringify and parse=example_parse
      and op=Handshake, OF h1 h2 h3 h4 h5]
  obtain packet where
    s: "send example_stringify ?s (op_value Handshake) ?p
          = Inr (?s\<lparr>written := written ?s @ [packet]\<rparr>)" and
    r: "\<And>chunks. concat chunks = packet \<Longrightarrow>
          receive example_parse new_IPCTransport chunks
            = ([(op_value Handshake, ?p)], new_IPCTransport, None)"
    by blast
  have "encode example_stringify (op_value Handshake) ?p = Inr (le32 0 @ le32 24 @ ?d)"
    using encode_eq[where stringify=example_stringify, OF h1 _ h3, of 0] by (simp add: len)
  then have "send example_stringify ?s (op_value Handshake) ?p
          = Inr (?s\<lparr>written := written ?s @ [le32 0 @ le32 24 @ ?d]\<rparr>)"
    using h4 by (simp add: send_def)
  with s have "written (?s\<lparr>written := written ?s @ [packet]\<rparr>)
             = written (?s\<lparr>written := written ?s @ [le32 0 @ le32 24 @ ?d]\<rparr>)"
    by simp
  then have p: "packet = le32 0 @ le32 24 @ ?d" by simp
  have "concat [take 3 packet, [], drop 3 packet] = packet" by simp
  from r[OF this] show ?thesis
    using h1 h2 h3 h4 h5 unfolding p by simp
qed

text \<open>
  Claim C2. Let the accumulation buffer start with a header whose length field is the
  length of the payload block that follows it, and let that block fail to parse. Then
  processing the buffer gives the same result as processing what follows the block:
  nothing is handed to the packet handler for the malformed message, nothing is
  raised, and the buffer is advanced past header and payload. In particular, when a
  well-formed encoded message follows, that message is the one handed over.
\<close>

theorem malformed_packet_skipped:
  assumes "length header = HEADER_SIZE" and "readUInt32LE header 4 = Inr (length raw)"
    and "parse raw = None"
    and "stringify payload = Some data" and "parse data = Some payload"
    and "length data < 2 ^ 32"
  shows "(\<forall>rest. processBuffer parse (header @ raw @ rest) = processBuffer parse rest) \<and>
         (\<exists>packet. encode stringify (op_value op) payload = Inr packet \<and>
            processBuffer parse (header @ raw @ packet) = ([(op_value op, payload)], [], None))"
proof -
  have skip: "processBuffer parse (header @ raw @ rest) = processBuffer parse rest" for rest
    using processBuffer_header[OF assms(1,2), of parse rest] assms(3)
    by (auto split: prod.splits)
  note enc = processBuffer_encoded[where stringify=stringify and parse=parse and payload=payload and data=data and op="op_value op", OF assms(4,5) op_value_u32 assms(6)]
  from skip enc show ?thesis by metis
qed

theorem malformed_packet_skipped_witness:
  "length (le32 1 @ le32 5) = HEADER_SIZE \<and>
   readUInt32LE (le32 1 @ le32 5) 4 = Inr (length (bytes_of ''{\"v\":'')) \<and>
   example_parse (bytes_of ''{\"v\":'') = None \<and>
   example_stringify (JObj [(''nonce'', JStr ''n1'')]) = Some (bytes_of ''{\"nonce\":\"n1\"}'') \<and>
   example_parse (bytes_of ''{\"nonce\":\"n1\"}'') = Some (JObj [(''nonce'', JStr ''n1'')]) \<and>
   length (bytes_of ''{\"nonce\":\"n1\"}'') < 2 ^ 32 \<and>
   processBuffer example_parse
     ((le32 1 @ le32 5) @ bytes_of ''{\"v\":'' @ le32 3 @ le32 14 @ bytes_of ''{\"nonce\":\"n1\"}'')
     = ([(3, JObj [(''nonce'', JStr ''n1'')])], [], None)"
proof -
  let ?p = "JObj [(''nonce'', JStr ''n1'')]"
  let ?d = "bytes_of ''{\"nonce\":\"n1\"}''"
  let ?raw = "bytes_of ''{\"v\":''"
  have h1: "length (le32 1 @ le32 5) = HEADER_SIZE" by (simp add: HEADER_SIZE_def)
  have lr: "length ?raw = 5" by (simp add: bytes_of_def)
  have h2: "readUInt32LE (le32 1 @ le32 5) 4 = Inr (length ?raw)"
    using readUInt32LE_le32[of 5 "le32 1" "[]"] by (simp add: lr)
  have h3: "example_parse ?raw = None" by code_simp
  have h4: "example_stringify ?p = Some ?d" by code_simp
  have h5: "example_parse ?d = Some ?p" by code_simp
  have len: "length ?d = 14" by (simp add: bytes_of_def)
  have h6: "length ?d < 2 ^ 32" by (simp add: len)
  from malformed_packet_skipped[where stringify=example_stringify and parse=example_parse
      and op=Ping, OF h1 h2 h3 h4 h5 h6]
  obtain packet where
    e: "encode example_stringify (op_value Ping) ?p = Inr packet" and
    r: "processBuffer example_parse ((le32 1 @ le32 5) @ ?raw @ packet)
          = ([(op_value Ping, ?p)], [], None)"
    by blast
  have "encode example_stringify (op_value Ping) ?p = Inr (le32 3 @ le32 14 @ ?d)"
    using encode_eq[where stringify=example_stringify, OF h4 _ h6, of 3] by (simp add: len)
  with e have p: "packet = le32 3 @ le32 14 @ ?d" by simp
  from r show ?thesis
    using h1 h2 h3 h4 h5 h6 unfolding p by simp
qed

section \<open>Discovery: slots and candidate paths\<close>

lemma String_nat_10: "String_nat (MAX_PIPE_INDEX + 1) = ''10''"
  by code_simp

lemma tryPath_end:
  "pathIndex \<ge> length paths \<Longrightarrow> tryPath h index timeout paths pathIndex t = (Inl (no_pipe index), t)"
  by (subst tryPath.simps) (simp add: no_pipe_def)

lemma tryPath_empty:
  "pathIndex < length paths \<Longrightarrow> paths ! pathIndex = [] \<Longrightarrow>
   tryPath h index timeout paths pathIndex t = (Inl (no_pipe index), t)"
  by (subst tryPath.simps) (simp add: no_pipe_def)

lemma tryPath_connects:
  "pathIndex < length paths \<Longrightarrow> paths ! pathIndex \<noteq> [] \<Longrightarrow>
   net_connect h (paths ! pathIndex) = Connects \<Longrightarrow>
   tryPath h index timeout paths pathIndex t =
     (Inr (), (tried t (paths ! pathIndex) timeout)
                \<lparr>socket := Some \<lparr>sock_path = paths ! pathIndex, destroyed = False\<rparr>\<rparr>)"
  by (subst tryPath.simps) (simp add: tried_def Let_def)

lemma tryPath_times_out:
  "pathIndex < length paths \<Longrightarrow> paths ! pathIndex \<noteq> [] \<Longrightarrow>
   net_connect h (paths ! pathIndex) = TimesOut \<Longrightarrow>
   tryPath h index timeout paths pathIndex t =
     (Inl (ConnectionError (''Connection timed out after '' @ String_nat timeout @ ''ms.'')),
      (tried t (paths ! pathIndex) timeout)
         \<lparr>abandoned := abandoned t @ [paths ! pathIndex]\<rparr>)"
  by (subst tryPath.simps) (simp add: tried_def Let_def)

lemma tryPath_other_error:
  "pathIndex < length paths \<Longrightarrow> paths ! pathIndex \<noteq> [] \<Longrightarrow>
   net_connect h (paths ! pathIndex) = Errors code message \<Longrightarrow>
   code \<noteq> ''ENOENT'' \<Longrightarrow> code \<noteq> ''ECONNREFUSED'' \<Longrightarrow>
   tryPath h index timeout paths pathIndex t =
     (Inl (ConnectionError (''IPC connection error: '' @ message)),
      (tried t (paths ! pathIndex) timeout)
         \<lparr>abandoned := abandoned t @ [paths ! pathIndex]\<rparr>)"
  by (subst tryPath.simps) (simp add: tried_def Let_def)

lemma tryPath_falls_through:
  "pathIndex < length paths \<Longrightarrow> paths ! pathIndex \<noteq> [] \<Longrightarrow>
   falls_through h (paths ! pathIndex) \<Longrightarrow>
   tryPath h index timeout paths pathIndex t =
     tryPath h index timeout paths (Suc pathIndex)
       ((tried t (paths ! pathIndex) timeout)
          \<lparr>abandoned := abandoned t @ [paths ! pathIndex]\<rparr>)"
  by (subst tryPath.simps) (auto simp: tried_def falls_through_def Let_def split: attempt.splits)

lemma tryPath_cases:
  obtains (finished) "pathIndex \<ge> length paths"
  | (empty_path) "pathIndex < length paths" "paths ! pathIndex = []"
  | (connects) "pathIndex < length paths" "paths ! pathIndex \<noteq> []"
      "net_connect h (paths ! pathIndex) = Connects"
  | (times_out) "pathIndex < length paths" "paths ! pathIndex \<noteq> []"
      "net_connect h (paths ! pathIndex) = TimesOut"
  | (other_error) code message where "pathIndex < length paths" "paths ! pathIndex \<noteq> []"
      "net_connect h (paths ! pathIndex) = Errors code message"
      "code \<noteq> ''ENOENT''" "code \<noteq> ''ECONNREFUSED''"
  | (advance) "pathIndex < length paths" "paths ! pathIndex \<noteq> []"
      "falls_through h (paths ! pathIndex)"
proof (cases "pathIndex \<ge> length paths")
  case True
  then show ?thesis by (rule finished)
next
  case False
  then have lt: "pathIndex < length paths" by simp
  show ?thesis
  proof (cases "paths ! pathIndex = []")
    case True
    with lt show ?thesis by (rule empty_path)
  next
    case ne: False
    show ?thesis
    proof (cases "net_connect h (paths ! pathIndex)")
      case Connects
      with lt ne show ?thesis by (rule connects)
    next
      case TimesOut
      with lt ne show ?thesis by (rule times_out)
    next
      case (Errors code message)
      show ?thesis
      proof (cases "code = ''ENOENT'' \<or> code = ''ECONNREFUSED''")
        case True
        with Errors have "falls_through h (paths ! pathIndex)"
          by (simp add: falls_through_def)
        with lt ne show ?thesis by (rule advance)
      next
        case False
        with lt ne Errors show ?thesis by (auto intro: other_error)
      qed
    qed
  qed
qed

lemma tryPath_fst_indep:
  "fst (tryPath h index timeout paths pathIndex t) = fst (tryPath h index timeout paths pathIndex t')"
proof (induction "length paths - pathIndex" arbitrary: pathIndex t t')
  case 0
  then show ?case by (simp add: tryPath_end)
next
  case (Suc n)
  show ?case
  proof (cases rule: tryPath_cases[where pathIndex=pathIndex and paths=paths and h=h])
    case advance
    have "n = length paths - Suc pathIndex" using Suc.hyps(2) by simp
    from Suc.hyps(1)[OF this] show ?thesis
      by (simp add: tryPath_falls_through[OF advance])
  qed (simp_all add: tryPath_end tryPath_empty tryPath_connects tryPath_times_out tryPath_other_error)
qed

lemma tryPath_slots:
  "slots (snd (tryPath h index timeout paths pathIndex t)) = slots t"
proof (induction "length paths - pathIndex" arbitrary: pathIndex t)
  case 0
  then show ?case by (simp add: tryPath_end)
next
  case (Suc n)
  show ?case
  proof (cases rule: tryPath_cases[where pathIndex=pathIndex and paths=paths and h=h])
    case advance
    have "n = length paths - Suc pathIndex" using Suc.hyps(2) by simp
    from Suc.hyps(1)[OF this] show ?thesis
      by (simp add: tryPath_falls_through[OF advance] tried_def)
  qed (simp_all add: tryPath_end tryPath_empty tryPath_connects tryPath_times_out
         tryPath_other_error tried_def)
qed

lemma tryConnect_fst_indep:
  "fst (tryConnect h index timeout t) = fst (tryConnect h index timeout t')"
  unfolding tryConnect_def by (rule tryPath_fst_indep)

lemma tryConnect_slots:
  "slots (snd (tryConnect h index timeout t)) = slots t @ [index]"
  unfolding tryConnect_def by (simp add: tryPath_slots)

lemma falls_through_not_Connects: "falls_through h p \<Longrightarrow> net_connect h p \<noteq> Connects"
  by (auto simp: falls_through_def)

lemma tryPath_characterised:
  assumes "\<forall>p \<in> set paths. p \<noteq> []"
  shows "fst (tryPath h index timeout paths pathIndex t)
           = path_result h index timeout (drop pathIndex paths) \<and>
         attempts (snd (tryPath h index timeout paths pathIndex t))
           = attempts t @ map (\<lambda>p. (p, timeout)) (paths_tried h (drop pathIndex paths)) \<and>
         abandoned (snd (tryPath h index timeout paths pathIndex t))
           = abandoned t @ paths_abandoned h (drop pathIndex paths)"
proof (induction "length paths - pathIndex" arbitrary: pathIndex t)
  case 0
  then show ?case
    by (simp add: tryPath_end path_result_def paths_tried_def paths_abandoned_def)
next
  case (Suc n)
  then have lt: "pathIndex < length paths" by simp
  then have ne: "paths ! pathIndex \<noteq> []" using assms by simp
  have d: "drop pathIndex paths = paths ! pathIndex # drop (Suc pathIndex) paths"
    using lt by (simp add: Cons_nth_drop_Suc)
  show ?case
  proof (cases rule: tryPath_cases[where pathIndex=pathIndex and paths=paths and h=h])
    case finished
    with lt show ?thesis by simp
  next
    case empty_path
    with ne show ?thesis by simp
  next
    case connects
    then have nf: "\<not> falls_through h (paths ! pathIndex)"
      by (simp add: falls_through_def)
    show ?thesis
      by (simp add: tryPath_connects[OF connects] d path_result_def paths_tried_def
            paths_abandoned_def nf connects(3) tried_def)
  next
    case times_out
    then have nf: "\<not> falls_through h (paths ! pathIndex)"
      by (simp add: falls_through_def)
    show ?thesis
      by (simp add: tryPath_times_out[OF times_out] d path_result_def paths_tried_def
            paths_abandoned_def nf times_out(3) tried_def)
  next
    case (other_error code message)
    then have nf: "\<not> falls_through h (paths ! pathIndex)"
      by (simp add: falls_through_def)
    show ?thesis
      by (simp add: tryPath_other_error[OF other_error] d path_result_def paths_tried_def
            paths_abandoned_def nf other_error(3) tried_def)
  next
    case advance
    have "n = length paths - Suc pathIndex" using Suc.hyps(2) by simp
    note IH = Suc.hyps(1)[OF this]
    show ?thesis
      by (simp add: tryPath_falls_through[OF advance] IH d path_result_def paths_tried_def
            paths_abandoned_def advance(3) falls_through_not_Connects[OF advance(3)] tried_def)
  qed
qed

lemma tryPath_ok_connected:
  "fst (tryPath h index timeout paths pathIndex t) = Inr () \<Longrightarrow>
   transport_connected (snd (tryPath h index timeout paths pathIndex t))"
proof (induction "length paths - pathIndex" arbitrary: pathIndex t)
  case 0
  then show ?case by (simp add: tryPath_end)
next
  case (Suc n)
  show ?case
  proof (cases rule: tryPath_cases[where pathIndex=pathIndex and paths=paths and h=h])
    case advance
    have "n = length paths - Suc pathIndex" using Suc.hyps(2) by simp
    from Suc.hyps(1)[OF this] Suc.prems show ?thesis
      by (simp add: tryPath_falls_through[OF advance])
  next
    case connects
    then show ?thesis
      by (simp add: tryPath_connects transport_connected_def)
  qed (use Suc.prems in \<open>simp_all add: tryPath_end tryPath_empty tryPath_times_out tryPath_other_error\<close>)
qed

lemma tryConnect_ok_connected:
  "fst (tryConnect h index timeout t) = Inr () \<Longrightarrow>
   transport_connected (snd (tryConnect h index timeout t))"
  unfolding tryConnect_def by (rule tryPath_ok_connected)

lemma connect_scan_past: "i > MAX_PIPE_INDEX \<Longrightarrow> connect_scan h timeout i t = (Inl scan_failed, t)"
  using String_nat_10 by (subst connect_scan.simps) (simp add: scan_failed_def)

lemma connect_scan_ok:
  "i \<le> MAX_PIPE_INDEX \<Longrightarrow> fst (tryConnect h i timeout t) = Inr () \<Longrightarrow>
   connect_scan h timeout i t = (Inr (), snd (tryConnect h i timeout t))"
  by (subst connect_scan.simps) (auto split: prod.splits sum.splits)

lemma connect_scan_fail:
  "i \<le> MAX_PIPE_INDEX \<Longrightarrow> fst (tryConnect h i timeout t) \<noteq> Inr () \<Longrightarrow>
   connect_scan h timeout i t = connect_scan h timeout (Suc i) (snd (tryConnect h i timeout t))"
  by (subst connect_scan.simps) (auto split: prod.splits sum.splits)

lemma connect_scan_all_fail:
  assumes "\<forall>j. i \<le> j \<and> j \<le> MAX_PIPE_INDEX \<longrightarrow> fst (tryConnect h j timeout t0) \<noteq> Inr ()"
  shows "fst (connect_scan h timeout i t) = Inl scan_failed \<and>
         slots (snd (connect_scan h timeout i t)) = slots t @ [i..<Suc MAX_PIPE_INDEX]"
  using assms
proof (induction "Suc MAX_PIPE_INDEX - i" arbitrary: i t)
  case 0
  then show ?case by (simp add: connect_scan_past)
next
  case (Suc n)
  then have le: "i \<le> MAX_PIPE_INDEX" by simp
  have "fst (tryConnect h i timeout t0) \<noteq> Inr ()" using Suc.prems le by simp
  then have f: "fst (tryConnect h i timeout t) \<noteq> Inr ()"
    using tryConnect_fst_indep[of h i timeout t t0] by simp
  have n: "n = Suc MAX_PIPE_INDEX - Suc i" using Suc.hyps(2) by simp
  have "\<forall>j. Suc i \<le> j \<and> j \<le> MAX_PIPE_INDEX \<longrightarrow> fst (tryConnect h j timeout t0) \<noteq> Inr ()"
    using Suc.prems by simp
  from Suc.hyps(1)[OF n this, of "snd (tryConnect h i timeout t)"] show ?case
    using le by (simp add: connect_scan_fail[OF le f] tryConnect_slots upt_conv_Cons)
qed

lemma connect_scan_first_ok:
  assumes "i \<le> k" "k \<le> MAX_PIPE_INDEX"
    "\<forall>j. i \<le> j \<and> j < k \<longrightarrow> fst (tryConnect h j timeout t0) \<noteq> Inr ()"
    "fst (tryConnect h k timeout t0) = Inr ()"
  shows "fst (connect_scan h timeout i t) = Inr () \<and>
         slots (snd (connect_scan h timeout i t)) = slots t @ [i..<Suc k] \<and>
         transport_connected (snd (connect_scan h timeout i t))"
  using assms
proof (induction "k - i" arbitrary: i t)
  case 0
  then have [simp]: "i = k" by simp
  have ok: "fst (tryConnect h k timeout t) = Inr ()"
    using "0.prems"(4) tryConnect_fst_indep[of h k timeout t t0] by simp
  show ?case
    using "0.prems"(2) ok
    by (simp add: connect_scan_ok tryConnect_slots tryConnect_ok_connected)
next
  case (Suc n)
  then have lt: "i < k" by simp
  then have le: "i \<le> MAX_PIPE_INDEX" using Suc.prems(2) by simp
  have "fst (tryConnect h i timeout t0) \<noteq> Inr ()" using Suc.prems(3) lt by simp
  then have f: "fst (tryConnect h i timeout t) \<noteq> Inr ()"
    using tryConnect_fst_indep[of h i timeout t t0] by simp
  have n: "n = k - Suc i" using Suc.hyps(2) by simp
  have rest: "\<forall>j. Suc i \<le> j \<and> j < k \<longrightarrow> fst (tryConnect h j timeout t0) \<noteq> Inr ()"
    using Suc.prems(3) by simp
  from Suc.hyps(1)[OF n _ Suc.prems(2) rest Suc.prems(4), of "snd (tryConnect h i timeout t)"] lt
  show ?case
    by (simp add: connect_scan_fail[OF le f] tryConnect_slots upt_conv_Cons)
qed

lemma digit_chars:
  "char_of (48::nat) = CHR ''0''" "char_of (49::nat) = CHR ''1''" "char_of (50::nat) = CHR ''2''"
  "char_of (51::nat) = CHR ''3''" "char_of (52::nat) = CHR ''4''" "char_of (53::nat) = CHR ''5''"
  "char_of (54::nat) = CHR ''6''" "char_of (55::nat) = CHR ''7''" "char_of (56::nat) = CHR ''8''"
  "char_of (57::nat) = CHR ''9''"
  by code_simp+

lemma String_nat_digit: "n < 10 \<Longrightarrow> String_nat n = [char_of (48 + n)]"
  by (subst String_nat.simps) simp

lemma String_nat_5000: "String_nat 5000 = ''5000''"
  by (simp add: String_nat.simps digit_chars)

lemma example_host_paths:
  "getPipePaths (example_host net) index =
     [''/run/user/1000/discord-ipc-'' @ String_nat index,
      ''/run/user/1000/app/com.discordapp.Discord/discord-ipc-'' @ String_nat index,
      ''/run/user/1000/snap.discord/discord-ipc-'' @ String_nat index]"
  by (simp add: getPipePaths_def example_host_def env_dirs_def posix_join_def Let_def)

lemma tryConnect_characterised:
  assumes "\<forall>p \<in> set (getPipePaths h index). p \<noteq> []"
  shows "fst (tryConnect h index timeout t)
           = path_result h index timeout (getPipePaths h index)"
    and "attempts (snd (tryConnect h index timeout t))
           = attempts t @ map (\<lambda>p. (p, timeout)) (paths_tried h (getPipePaths h index))"
    and "abandoned (snd (tryConnect h index timeout t))
           = abandoned t @ paths_abandoned h (getPipePaths h index)"
  using tryPath_characterised[OF assms, of h index timeout 0 "t\<lparr>slots := slots t @ [index]\<rparr>"]
  by (simp_all add: tryConnect_def)

lemma example_host_nonempty: "\<forall>p \<in> set (getPipePaths (example_host net) index). p \<noteq> []"
  by (simp add: example_host_paths)

lemma net_example [simp]: "net_connect (example_host net) = net"
  by (simp add: example_host_def)

text \<open>
  Claim C8, as stated, fails. On a host whose first candidate path of slot 0 neither
  connects nor fails before the timer fires, while the second candidate path would
  connect, \<open>tryConnect\<close> rejects at once with the timeout error: the only path
  handed to \<open>net.connect\<close> is the first one, and the second candidate is never
  attempted.
\<close>

theorem timeout_skips_remaining_paths:
  "getPipePaths (example_host first_path_hangs) 0 =
     [''/run/user/1000/discord-ipc-0'',
      ''/run/user/1000/app/com.discordapp.Discord/discord-ipc-0'',
      ''/run/user/1000/snap.discord/discord-ipc-0''] \<and>
   net_connect (example_host first_path_hangs) ''/run/user/1000/discord-ipc-0'' = TimesOut \<and>
   net_connect (example_host first_path_hangs)
     ''/run/user/1000/app/com.discordapp.Discord/discord-ipc-0'' = Connects \<and>
   fst (tryConnect (example_host first_path_hangs) 0 5000 new_IPCTransport)
     = Inl (ConnectionError ''Connection timed out after 5000ms.'') \<and>
   attempts (snd (tryConnect (example_host first_path_hangs) 0 5000 new_IPCTransport))
     = [(''/run/user/1000/discord-ipc-0'', 5000)] \<and>
   (''/run/user/1000/app/com.discordapp.Discord/discord-ipc-0'', 5000)
     \<notin> set (attempts (snd (tryConnect (example_host first_path_hangs) 0 5000 new_IPCTransport)))"
proof -
  have paths: "getPipePaths (example_host first_path_hangs) 0 =
     [''/run/user/1000/discord-ipc-0'',
      ''/run/user/1000/app/com.discordapp.Discord/discord-ipc-0'',
      ''/run/user/1000/snap.discord/discord-ipc-0'']"
    by (simp add: example_host_paths String_nat_digit digit_chars)
  note c = tryConnect_characterised[OF example_host_nonempty, of first_path_hangs 0 5000 new_IPCTransport]
  show ?thesis
    unfolding c paths
    by (simp add: path_result_def paths_tried_def falls_through_def first_path_hangs_def
          new_IPCTransport_def String_nat_5000)
qed

text \<open>
  Claim C7. Whether \<open>tryConnect\<close> succeeds on a slot does not depend on the state of
  the transport (\<open>tryConnect_fst_indep\<close>), so the outcome of each slot can be read
  at the starting transport. Called without a pipe index, \<open>connect\<close> calls
  \<open>tryConnect\<close> on the slots 0, 1, ... in ascending order and stops at the first slot
  \<open>k \<le> 9\<close> that connects: the slots tried are exactly 0 to \<open>k\<close>, and the transport
  is connected. When none of the slots 0 to 9 connects, all ten are tried and the
  result is the connection error whose message says that 10 pipes were scanned. Called
  with a pipe index, \<open>connect\<close> is \<open>tryConnect\<close> on that slot and tries no other.
\<close>

theorem connect_scans_slots_in_order:
  assumes "timeout = (case timeout_arg of None \<Rightarrow> 10000 | Some ms \<Rightarrow> ms)"
  shows "(k \<le> MAX_PIPE_INDEX \<and> (\<forall>j<k. fst (tryConnect h j timeout t) \<noteq> Inr ()) \<and>
          fst (tryConnect h k timeout t) = Inr () \<longrightarrow>
            fst (connect h None timeout_arg t) = Inr () \<and>
            transport_connected (snd (connect h None timeout_arg t)) \<and>
            slots (snd (connect h None timeout_arg t)) = slots t @ [0..<Suc k]) \<and>
         ((\<forall>j\<le>MAX_PIPE_INDEX. fst (tryConnect h j timeout t) \<noteq> Inr ()) \<longrightarrow>
            fst (connect h None timeout_arg t)
              = Inl (ConnectionError
                  ''Could not connect to Discord. No running instance found (scanned 10 pipes).'') \<and>
            slots (snd (connect h None timeout_arg t)) = slots t @ [0..<10]) \<and>
         connect h (Some i) timeout_arg t = tryConnect h i timeout t \<and>
         slots (snd (connect h (Some i) timeout_arg t)) = slots t @ [i]"
proof -
  have scan: "connect h None timeout_arg t = connect_scan h timeout 0 t"
    using assms by (simp add: connect_def)
  have one: "connect h (Some i) timeout_arg t = tryConnect h i timeout t"
    using assms by (simp add: connect_def)
  have first: "fst (connect h None timeout_arg t) = Inr () \<and>
      transport_connected (snd (connect h None timeout_arg t)) \<and>
      slots (snd (connect h None timeout_arg t)) = slots t @ [0..<Suc k]"
    if "k \<le> MAX_PIPE_INDEX" "\<forall>j<k. fst (tryConnect h j timeout t) \<noteq> Inr ()"
      "fst (tryConnect h k timeout t) = Inr ()"
    using connect_scan_first_ok[of 0 k h timeout t t] that unfolding scan by simp
  have none: "fst (connect h None timeout_arg t) = Inl scan_failed \<and>
      slots (snd (connect h None timeout_arg t)) = slots t @ [0..<10]"
    if "\<forall>j\<le>MAX_PIPE_INDEX. fst (tryConnect h j timeout t) \<noteq> Inr ()"
    using connect_scan_all_fail[of 0 h timeout t t] that unfolding scan
    by (simp add: MAX_PIPE_INDEX_def)
  show ?thesis
    using first none one by (simp add: tryConnect_slots scan_failed_def)
qed

lemma snap_slot_3_fails:
  assumes "j < 3"
  shows "fst (tryConnect (example_host snap_slot_3) j timeout t) \<noteq> Inr ()"
proof -
  from assms consider "j = 0" | "j = 1" | "j = 2" by linarith
  then show ?thesis
    by cases
      (simp_all add: tryConnect_characterised[OF example_host_nonempty] example_host_paths
         String_nat_digit digit_chars path_result_def falls_through_def snap_slot_3_def)
qed

lemma snap_slot_3_connects:
  "fst (tryConnect (example_host snap_slot_3) 3 timeout t) = Inr ()"
  by (simp add: tryConnect_characterised[OF example_host_nonempty] example_host_paths
         String_nat_digit digit_chars path_result_def falls_through_def snap_slot_3_def)

lemma nothing_listens_fails:
  "fst (tryConnect (example_host nothing_listens) j timeout t) \<noteq> Inr ()"
  by (simp add: tryConnect_characterised[OF example_host_nonempty] example_host_paths
         path_result_def falls_through_def nothing_listens_def)

theorem connect_scans_slots_in_order_witness:
  "(10000::nat) = (case None of None \<Rightarrow> 10000 | Some ms \<Rightarrow> ms) \<and>
   (3::nat) \<le> MAX_PIPE_INDEX \<and>
   fst (tryConnect (example_host snap_slot_3) 0 10000 new_IPCTransport) \<noteq> Inr () \<and>
   fst (tryConnect (example_host snap_slot_3) 1 10000 new_IPCTransport) \<noteq> Inr () \<and>
   fst (tryConnect (example_host snap_slot_3) 2 10000 new_IPCTransport) \<noteq> Inr () \<and>
   fst (tryConnect (example_host snap_slot_3) 3 10000 new_IPCTransport) = Inr () \<and>
   fst (connect (example_host snap_slot_3) None None new_IPCTransport) = Inr () \<and>
   transport_connected (snd (connect (example_host snap_slot_3) None None new_IPCTransport)) \<and>
   slots (snd (connect (example_host snap_slot_3) None None new_IPCTransport)) = [0, 1, 2, 3] \<and>
   list_all (\<lambda>j. fst (tryConnect (example_host nothing_listens) j 10000 new_IPCTransport) \<noteq> Inr ())
     [0, 1, 2, 3, 4, 5, 6, 7, 8, 9] \<and>
   fst (connect (example_host nothing_listens) None None new_IPCTransport)
     = Inl (ConnectionError
         ''Could not connect to Discord. No running instance found (scanned 10 pipes).'') \<and>
   slots (snd (connect (example_host nothing_listens) None None new_IPCTransport))
     = [0, 1, 2, 3, 4, 5, 6, 7, 8, 9] \<and>
   slots (snd (connect (example_host nothing_listens) (Some 7) None new_IPCTransport)) = [7]"
proof -
  have h0: "(10000::nat) = (case None of None \<Rightarrow> 10000 | Some ms \<Rightarrow> ms)" by simp
  have h1: "(3::nat) \<le> MAX_PIPE_INDEX" by (simp add: MAX_PIPE_INDEX_def)
  have h2: "\<forall>j<3. fst (tryConnect (example_host snap_slot_3) j 10000 new_IPCTransport) \<noteq> Inr ()"
    using snap_slot_3_fails by blast
  have h3: "fst (tryConnect (example_host snap_slot_3) 3 10000 new_IPCTransport) = Inr ()"
    by (rule snap_slot_3_connects)
  have h4: "\<forall>j\<le>MAX_PIPE_INDEX.
      fst (tryConnect (example_host nothing_listens) j 10000 new_IPCTransport) \<noteq> Inr ()"
    using nothing_listens_fails by blast
  have s: "slots new_IPCTransport = []" by (simp add: new_IPCTransport_def)
  have u3: "[0..<4] = [0, 1, 2, 3::nat]" by (simp add: upt_rec)
  have u10: "[0..<10] = [0, 1, 2, 3, 4, 5, 6, 7, 8, 9::nat]" by (simp add: upt_rec)
  from connect_scans_slots_in_order[OF h0, of 3 "example_host snap_slot_3" new_IPCTransport 0]
    h1 h2 h3
  have a: "fst (connect (example_host snap_slot_3) None None new_IPCTransport) = Inr () \<and>
      transport_connected (snd (connect (example_host snap_slot_3) None None new_IPCTransport)) \<and>
      slots (snd (connect (example_host snap_slot_3) None None new_IPCTransport)) = [0, 1, 2, 3]"
    by (simp add: s u3)
  from connect_scans_slots_in_order[OF h0, of 0 "example_host nothing_listens" new_IPCTransport 7]
    h4
  have b: "fst (connect (example_host nothing_listens) None None new_IPCTransport)
       = Inl (ConnectionError
           ''Could not connect to Discord. No running instance found (scanned 10 pipes).'') \<and>
     slots (snd (connect (example_host nothing_listens) None None new_IPCTransport))
       = [0, 1, 2, 3, 4, 5, 6, 7, 8, 9] \<and>
     slots (snd (connect (example_host nothing_listens) (Some 7) None new_IPCTransport)) = [7]"
    by (simp add: s u10 tryConnect_slots)
  have h4': "list_all
      (\<lambda>j. fst (tryConnect (example_host nothing_listens) j 10000 new_IPCTransport) \<noteq> Inr ())
      [0, 1, 2, 3, 4, 5, 6, 7, 8, 9]"
    by (simp add: nothing_listens_fails)
  from h0 h1 h2 h3 h4' a b show ?thesis by simp
qed

text \<open>
  Claim C8, amended. The candidate paths of a slot are tried in order for as long as
  the attempt ends in \<open>ENOENT\<close> or \<open>ECONNREFUSED\<close>; each of these paths has its socket
  destroyed and the next candidate path of the same slot is tried. The first path
  whose attempt ends otherwise decides the slot: a connection resolves; a timeout
  destroys the socket and rejects the slot with the timeout error, and any other
  error rejects it with the connection error of that message, in both cases without
  trying the remaining candidate paths. When every path falls through, the slot is
  rejected with the error that no pipe was found at that index.
\<close>

theorem tryConnect_paths_in_sequence:
  assumes "\<forall>p \<in> set (getPipePaths h index). p \<noteq> []"
  shows "fst (tryConnect h index timeout t)
           = path_result h index timeout (getPipePaths h index) \<and>
         attempts (snd (tryConnect h index timeout t))
           = attempts t @ map (\<lambda>p. (p, timeout)) (paths_tried h (getPipePaths h index)) \<and>
         abandoned (snd (tryConnect h index timeout t))
           = abandoned t @ paths_abandoned h (getPipePaths h index)"
  using tryConnect_characterised[OF assms] by simp

theorem tryConnect_paths_in_sequence_witness:
  "[] \<notin> set (getPipePaths (example_host refused_then_hangs) 0) \<and>
   fst (tryConnect (example_host refused_then_hangs) 0 5000 new_IPCTransport)
     = Inl (ConnectionError ''Connection timed out after 5000ms.'') \<and>
   attempts (snd (tryConnect (example_host refused_then_hangs) 0 5000 new_IPCTransport))
     = [(''/run/user/1000/discord-ipc-0'', 5000),
        (''/run/user/1000/app/com.discordapp.Discord/discord-ipc-0'', 5000)] \<and>
   abandoned (snd (tryConnect (example_host refused_then_hangs) 0 5000 new_IPCTransport))
     = [''/run/user/1000/discord-ipc-0'',
        ''/run/user/1000/app/com.discordapp.Discord/discord-ipc-0'']"
proof -
  have h: "\<forall>p \<in> set (getPipePaths (example_host refused_then_hangs) 0). p \<noteq> []"
    by (rule example_host_nonempty)
  have paths: "getPipePaths (example_host refused_then_hangs) 0 =
     [''/run/user/1000/discord-ipc-0'',
      ''/run/user/1000/app/com.discordapp.Discord/discord-ipc-0'',
      ''/run/user/1000/snap.discord/discord-ipc-0'']"
    by (simp add: example_host_paths String_nat_digit digit_chars)
  have h': "[] \<notin> set (getPipePaths (example_host refused_then_hangs) 0)"
    using h by blast
  from tryConnect_paths_in_sequence[OF h, of 5000 new_IPCTransport] h' show ?thesis
    unfolding paths
    by (simp add: path_result_def paths_tried_def paths_abandoned_def falls_through_def
          refused_then_hangs_def new_IPCTransport_def String_nat_5000)
qed

section \<open>Client: effects of the operations\<close>

lemma coalesce_simps [simp]:
  "coalesce None d = d" "coalesce (Some JNull) d = d"
  "v \<noteq> JNull \<Longrightarrow> coalesce (Some v) d = v"
  by (simp_all add: coalesce_def nullish_def)


lemma onPacket_unmatched:
  assumes "map_of (pendingRequests c) n = None" and "n \<noteq> []"
    and "get raw ''nonce'' = Some (JStr n)"
    and "get raw ''evt'' \<noteq> Some (JStr RPCEvent_Ready)"
  shows "onPacket rt u c (op_value Frame) raw =
           (if get raw ''cmd'' = Some (JStr Command_Dispatch) \<and> truthy (get raw ''evt'')
            then (emit (rpcEvent_event (get raw ''evt'') (get raw ''data'')) c, None)
            else (c, None))"
proof -
  have nn: "raw \<noteq> JNull" using assms(3) by (cases raw) simp_all
  show ?thesis
    using assms nn
    by (simp add: onPacket_def Let_def pending_get_def)
qed

lemma rejectAllPending_loop_pending:
  "pendingRequests (rejectAllPending_loop reason xs c)
     = filter (\<lambda>kv. fst kv \<notin> fst ` set xs) (pendingRequests c)"
proof (induction xs arbitrary: c)
  case Nil
  then show ?case by simp
next
  case (Cons x xs)
  obtain n e where x: "x = (n, e)" by (cases x)
  show ?case
    unfolding x
    by (auto simp: Cons.IH settle_def clearTimeout_def AList.delete_eq case_prod_unfold intro: filter_cong)
qed

lemma rejectAllPending_loop_settled:
  "settled (rejectAllPending_loop reason xs c)
     = settled c @ map (\<lambda>kv. (promise (snd kv), Rejected (ConnectionError reason))) xs"
proof (induction xs arbitrary: c)
  case Nil
  then show ?case by simp
next
  case (Cons x xs)
  obtain n e where x: "x = (n, e)" by (cases x)
  show ?case
    unfolding x by (simp add: Cons.IH settle_def clearTimeout_def)
qed

lemma rejectAllPending_loop_timers:
  "timers (rejectAllPending_loop reason xs c)
     = filter (\<lambda>t. fst t \<notin> (\<lambda>kv. timer (snd kv)) ` set xs) (timers c)"
proof (induction xs arbitrary: c)
  case Nil
  then show ?case by simp
next
  case (Cons x xs)
  obtain n e where x: "x = (n, e)" by (cases x)
  show ?case
    unfolding x
    by (auto simp: Cons.IH settle_def clearTimeout_def AList.delete_eq case_prod_unfold intro: filter_cong)
qed

lemma rejectAllPending_loop_other:
  "state (rejectAllPending_loop reason xs c) = state c"
  "emitted (rejectAllPending_loop reason xs c) = emitted c"
  "transport (rejectAllPending_loop reason xs c) = transport c"
  "heartbeatTimer (rejectAllPending_loop reason xs c) = heartbeatTimer c"
  "options (rejectAllPending_loop reason xs c) = options c"
  "onReady (rejectAllPending_loop reason xs c) = onReady c"
  by (induction reason xs c rule: rejectAllPending_loop.induct)
     (simp_all add: settle_def clearTimeout_def)

lemma rejectAllPending_empty: "pendingRequests (rejectAllPending reason c) = []"
  by (simp add: rejectAllPending_def rejectAllPending_loop_pending filter_empty_conv)

lemma rejectAllPending_settled:
  "settled (rejectAllPending reason c)
     = settled c @ map (\<lambda>kv. (promise (snd kv), Rejected (ConnectionError reason))) (pendingRequests c)"
  by (simp add: rejectAllPending_def rejectAllPending_loop_settled)

lemma rejectAllPending_timers:
  "timers (rejectAllPending reason c)
     = filter (\<lambda>t. fst t \<notin> (\<lambda>kv. timer (snd kv)) ` set (pendingRequests c)) (timers c)"
  by (simp add: rejectAllPending_def rejectAllPending_loop_timers)

lemma rejectAllPending_other [simp]:
  "state (rejectAllPending reason c) = state c"
  "emitted (rejectAllPending reason c) = emitted c"
  "transport (rejectAllPending reason c) = transport c"
  "heartbeatTimer (rejectAllPending reason c) = heartbeatTimer c"
  "options (rejectAllPending reason c) = options c"
  "onReady (rejectAllPending reason c) = onReady c"
  by (simp_all add: rejectAllPending_def rejectAllPending_loop_other)

lemma stopHeartbeat_fields [simp]:
  "heartbeatTimer (stopHeartbeat c) = None"
  "pendingRequests (stopHeartbeat c) = pendingRequests c"
  "settled (stopHeartbeat c) = settled c"
  "state (stopHeartbeat c) = state c"
  "emitted (stopHeartbeat c) = emitted c"
  "transport (stopHeartbeat c) = transport c"
  "options (stopHeartbeat c) = options c"
  "onReady (stopHeartbeat c) = onReady c"
  by (simp_all add: stopHeartbeat_def clearTimeout_def split: option.splits)

lemma stopHeartbeat_timers:
  "timers (stopHeartbeat c)
     = (case heartbeatTimer c of None \<Rightarrow> timers c | Some h \<Rightarrow> AList.delete h (timers c))"
  by (simp add: stopHeartbeat_def clearTimeout_def split: option.splits)

lemma setState_fields [simp]:
  "state (setState s c) = s"
  "pendingRequests (setState s c) = pendingRequests c"
  "settled (setState s c) = settled c"
  "timers (setState s c) = timers c"
  "heartbeatTimer (setState s c) = heartbeatTimer c"
  "transport (setState s c) = transport c"
  "options (setState s c) = options c"
  "onReady (setState s c) = onReady c"
  by (simp_all add: setState_def emit_def)

lemma setState_emitted:
  "emitted (setState s c) = emitted c @ (if state c \<noteq> s then [stateChange_event s] else [])"
  by (simp add: setState_def emit_def)

lemma destroy_finish_fields:
  "heartbeatTimer (destroy_finish c) = None"
  "pendingRequests (destroy_finish c) = []"
  "state (destroy_finish c) = disconnected"
  "transport (destroy_finish c) = transport_destroy (transport c)"
  "settled (destroy_finish c)
     = settled c @ map (\<lambda>kv. (promise (snd kv), Rejected (ConnectionError ''Client destroyed.'')))
                       (pendingRequests c)"
  "timers (destroy_finish c)
     = filter (\<lambda>t. fst t \<notin> (\<lambda>kv. timer (snd kv)) ` set (pendingRequests c))
         (case heartbeatTimer c of None \<Rightarrow> timers c | Some h \<Rightarrow> AList.delete h (timers c))"
  "emitted (destroy_finish c)
     = emitted c @ (if state c \<noteq> disconnected then [stateChange_event disconnected] else [])"
  by (simp_all add: destroy_finish_def Let_def rejectAllPending_empty rejectAllPending_settled
        rejectAllPending_timers stopHeartbeat_timers setState_emitted)

lemma request_ready:
  assumes "state c = ready"
  shows "fst (request rt nonce cmd args evt c) = Promise (fresh c)"
    and "pendingRequests (snd (request rt nonce cmd args evt c))
           = AList.update nonce \<lparr>promise = fresh c, timer = Suc (fresh c)\<rparr> (pendingRequests c)"
    and "timers (snd (request rt nonce cmd args evt c))
           = timers c @ [(Suc (fresh c), connectionTimeout (options c),
                          RequestTimeout nonce cmd (fresh c))]"
    and "emitted (snd (request rt nonce cmd args evt c)) = emitted c"
    and "state (snd (request rt nonce cmd args evt c)) = ready"
    and "options (snd (request rt nonce cmd args evt c)) = options c"
  using assms
  by (auto simp: request_def Let_def new_promise_def setTimeout_def settle_def split: sum.splits)


lemma setState_more_fields [simp]:
  "fresh (setState s c) = fresh c" "clientId (setState s c) = clientId c"
  by (simp_all add: setState_def emit_def)

lemma send_keeps_connected:
  "send js t op payload = Inr t' \<Longrightarrow> transport_connected t'"
  by (auto simp: send_def transport_connected_def split: if_splits sum.splits)

lemma tryPath_attempts:
  "\<exists>qs. attempts (snd (tryPath h index timeout paths pathIndex t))
          = attempts t @ map (\<lambda>p. (p, timeout)) qs"
proof (induction "length paths - pathIndex" arbitrary: pathIndex t)
  case 0
  then have "attempts (snd (tryPath h index timeout paths pathIndex t))
      = attempts t @ map (\<lambda>p. (p, timeout)) []"
    by (simp add: tryPath_end)
  then show ?case by blast
next
  case (Suc n)
  show ?case
  proof (cases rule: tryPath_cases[where pathIndex=pathIndex and paths=paths and h=h])
    case advance
    have "n = length paths - Suc pathIndex" using Suc.hyps(2) by simp
    from Suc.hyps(1)[OF this, of "(tried t (paths ! pathIndex) timeout)
          \<lparr>abandoned := abandoned t @ [paths ! pathIndex]\<rparr>"]
    obtain qs where "attempts (snd (tryPath h index timeout paths (Suc pathIndex)
          ((tried t (paths ! pathIndex) timeout)\<lparr>abandoned := abandoned t @ [paths ! pathIndex]\<rparr>)))
        = attempts t @ map (\<lambda>p. (p, timeout)) (paths ! pathIndex # qs)"
      by (auto simp: tried_def)
    then show ?thesis
      by (simp only: tryPath_falls_through[OF advance]) blast
  next
    case finished
    then have "attempts (snd (tryPath h index timeout paths pathIndex t))
        = attempts t @ map (\<lambda>p. (p, timeout)) []"
      by (simp add: tryPath_end)
    then show ?thesis by blast
  next
    case empty_path
    then have "attempts (snd (tryPath h index timeout paths pathIndex t))
        = attempts t @ map (\<lambda>p. (p, timeout)) []"
      by (simp add: tryPath_empty)
    then show ?thesis by blast
  next
    case connects
    then have "attempts (snd (tryPath h index timeout paths pathIndex t))
        = attempts t @ map (\<lambda>p. (p, timeout)) [paths ! pathIndex]"
      by (simp add: tryPath_connects tried_def)
    then show ?thesis by blast
  next
    case times_out
    then have "attempts (snd (tryPath h index timeout paths pathIndex t))
        = attempts t @ map (\<lambda>p. (p, timeout)) [paths ! pathIndex]"
      by (simp add: tryPath_times_out tried_def)
    then show ?thesis by blast
  next
    case (other_error code message)
    then have "attempts (snd (tryPath h index timeout paths pathIndex t))
        = attempts t @ map (\<lambda>p. (p, timeout)) [paths ! pathIndex]"
      by (simp add: tryPath_other_error tried_def)
    then show ?thesis by blast
  qed
qed

lemma tryConnect_attempts:
  "\<exists>qs. attempts (snd (tryConnect h index timeout t)) = attempts t @ map (\<lambda>p. (p, timeout)) qs"
  using tryPath_attempts[of h index timeout "getPipePaths h index" 0 "t\<lparr>slots := slots t @ [index]\<rparr>"]
  by (simp add: tryConnect_def)

lemma connect_scan_attempts:
  "\<exists>qs. attempts (snd (connect_scan h timeout i t)) = attempts t @ map (\<lambda>p. (p, timeout)) qs"
proof (induction "Suc MAX_PIPE_INDEX - i" arbitrary: i t)
  case 0
  then have "attempts (snd (connect_scan h timeout i t)) = attempts t @ map (\<lambda>p. (p, timeout)) []"
    by (simp add: connect_scan_past)
  then show ?case by blast
next
  case (Suc n)
  then have le: "i \<le> MAX_PIPE_INDEX" by simp
  obtain qs where qs: "attempts (snd (tryConnect h i timeout t))
      = attempts t @ map (\<lambda>p. (p, timeout)) qs"
    using tryConnect_attempts by blast
  show ?case
  proof (cases "fst (tryConnect h i timeout t) = Inr ()")
    case True
    with qs show ?thesis by (auto simp: connect_scan_ok[OF le True])
  next
    case False
    have n: "n = Suc MAX_PIPE_INDEX - Suc i" using Suc.hyps(2) by simp
    from Suc.hyps(1)[OF n, of "snd (tryConnect h i timeout t)"]
    obtain rs where "attempts (snd (connect_scan h timeout (Suc i) (snd (tryConnect h i timeout t))))
        = attempts t @ map (\<lambda>p. (p, timeout)) (qs @ rs)"
      by (auto simp: qs)
    then show ?thesis
      by (simp only: connect_scan_fail[OF le False]) blast
  qed
qed

lemma connect_attempts:
  "\<exists>qs. attempts (snd (connect h pipeIndex (Some timeout) t))
          = attempts t @ map (\<lambda>p. (p, timeout)) qs"
  using tryConnect_attempts connect_scan_attempts
  by (cases pipeIndex) (simp_all add: connect_def)

lemma login_connect_attempts:
  "\<exists>qs. attempts (transport (snd (login_connect rt c)))
          = attempts (transport c) @ map (\<lambda>p. (p, connectionTimeout (options c))) qs"
proof -
  obtain qs where "attempts (snd (connect (host rt) None (Some (connectionTimeout (options c)))
        (transport c))) = attempts (transport c) @ map (\<lambda>p. (p, connectionTimeout (options c))) qs"
    using connect_attempts by blast
  then have "attempts (transport (snd (login_connect rt c)))
          = attempts (transport c) @ map (\<lambda>p. (p, connectionTimeout (options c))) qs"
    by (auto simp: login_connect_def split: prod.splits sum.splits)
  then show ?thesis by blast
qed

lemma login_handshake_timers:
  "timers (snd (login_handshake rt cid c))
     = timers c @ [(Suc (fresh c), connectionTimeout (options c), HandshakeTimeout (fresh c))]"
  by (auto simp: login_handshake_def Let_def new_promise_def setTimeout_def settle_def
        split: sum.splits)




section \<open>Client: invariants of the histories\<close>

lemma stateChanges_append: "stateChanges (xs @ ys) = stateChanges xs @ stateChanges ys"
  by (induction xs rule: stateChanges.induct) simp_all

lemma preserves_refl [simp]: "preserves c c"
  by (simp add: preserves_def)

lemma preserves_trans: "preserves a b \<Longrightarrow> preserves b c \<Longrightarrow> preserves a c"
  by (simp add: preserves_def)

lemma preserves_quiet:
  assumes "state c' = state c" "stateChanges (emitted c') = stateChanges (emitted c)"
    "timers c' = timers c" "heartbeatTimer c' = heartbeatTimer c" "fresh c' = fresh c"
    "options c' = options c"
  shows "preserves c c'"
  using assms by (simp add: preserves_def sc_inv_def hb_inv_def fresh_inv_def timeout_inv_def list_all_iff)

lemma pres_setState: "preserves c x \<Longrightarrow> preserves c (setState s x)"
proof (rule preserves_trans)
  show "preserves x (setState s x)"
    by (auto simp: preserves_def sc_inv_def hb_inv_def fresh_inv_def timeout_inv_def list_all_iff setState_def emit_def stateChanges_append
          distinct_adj_append_iff)
qed

lemma pres_emit:
  assumes "stateChanges [e] = []" "preserves c x"
  shows "preserves c (emit e x)"
proof (rule preserves_trans[OF assms(2)])
  show "preserves x (emit e x)"
    using assms(1) by (auto intro!: preserves_quiet simp: emit_def stateChanges_append)
qed

lemma pres_settle: "preserves c x \<Longrightarrow> preserves c (settle p s x)"
  by (erule preserves_trans) (auto intro!: preserves_quiet simp: settle_def)

lemma pres_clearTimeout: "preserves c x \<Longrightarrow> preserves c (clearTimeout h x)"
proof (erule preserves_trans)
  show "preserves x (clearTimeout h x)"
    by (auto simp: preserves_def sc_inv_def hb_inv_def fresh_inv_def timeout_inv_def list_all_iff clearTimeout_def AList.delete_eq)
qed

lemma pres_setTimeout:
  assumes "k \<noteq> Heartbeat" "\<not> is_timeout k" "preserves c x"
  shows "preserves c (snd (setTimeout d k x))"
proof (rule preserves_trans[OF assms(3)])
  show "preserves x (snd (setTimeout d k x))"
    using assms(1,2) by (auto simp: preserves_def sc_inv_def hb_inv_def fresh_inv_def timeout_inv_def list_all_iff setTimeout_def)
qed

lemma pres_new_promise: "preserves c x \<Longrightarrow> preserves c (snd (new_promise x))"
  by (erule preserves_trans)
     (auto simp: preserves_def sc_inv_def hb_inv_def fresh_inv_def timeout_inv_def list_all_iff new_promise_def)

lemma pres_transport: "preserves c x \<Longrightarrow> preserves c (x\<lparr>transport := t\<rparr>)"
  by (erule preserves_trans) (auto intro!: preserves_quiet)

lemma pres_pendingRequests: "preserves c x \<Longrightarrow> preserves c (x\<lparr>pendingRequests := m\<rparr>)"
  by (erule preserves_trans) (auto intro!: preserves_quiet)

lemma pres_clientId: "preserves c x \<Longrightarrow> preserves c (x\<lparr>clientId := i\<rparr>)"
  by (erule preserves_trans) (auto intro!: preserves_quiet)

lemma pres_onReady: "preserves c x \<Longrightarrow> preserves c (x\<lparr>onReady := l\<rparr>)"
  by (erule preserves_trans) (auto intro!: preserves_quiet)

lemma pres_stopHeartbeat: "preserves c x \<Longrightarrow> preserves c (stopHeartbeat x)"
proof (erule preserves_trans)
  show "preserves x (stopHeartbeat x)"
    by (auto simp: preserves_def sc_inv_def hb_inv_def fresh_inv_def timeout_inv_def list_all_iff stopHeartbeat_def clearTimeout_def
          AList.delete_eq split: option.splits)
qed

lemma stopHeartbeat_no_heartbeat:
  "hb_inv c \<Longrightarrow> list_all (\<lambda>t. snd (snd t) \<noteq> Heartbeat) (timers (stopHeartbeat c))"
  by (auto simp: hb_inv_def stopHeartbeat_def clearTimeout_def AList.delete_eq list_all_iff
        split: option.splits)

lemma pres_startHeartbeat: "preserves c x \<Longrightarrow> preserves c (startHeartbeat x)"
proof (erule preserves_trans)
  have sc: "sc_inv x \<Longrightarrow> sc_inv (startHeartbeat x)"
    by (simp add: sc_inv_def startHeartbeat_def setTimeout_def)
  have fr: "fresh_inv x \<Longrightarrow> fresh_inv (startHeartbeat x)"
    by (auto simp: fresh_inv_def timeout_inv_def startHeartbeat_def setTimeout_def stopHeartbeat_def
          clearTimeout_def AList.delete_eq list_all_iff split: option.splits)
  have hb: "hb_inv (startHeartbeat x)" if "hb_inv x"
    using stopHeartbeat_no_heartbeat[OF that]
    by (auto simp: hb_inv_def startHeartbeat_def setTimeout_def list_all_iff)
  have tm: "timeout_inv x \<Longrightarrow> timeout_inv (startHeartbeat x)"
    by (auto simp: timeout_inv_def startHeartbeat_def setTimeout_def stopHeartbeat_def
          clearTimeout_def AList.delete_eq list_all_iff split: option.splits)
  show "preserves x (startHeartbeat x)"
    using sc hb fr tm
    by (simp add: preserves_def startHeartbeat_def setTimeout_def)
qed

lemma pres_rejectAllPending_loop:
  "preserves c x \<Longrightarrow> preserves c (rejectAllPending_loop reason xs x)"
proof (induction xs arbitrary: x)
  case Nil
  then show ?case by simp
next
  case (Cons a xs)
  obtain n e where a: "a = (n, e)" by (cases a)
  show ?case
    unfolding a
    by (simp, rule Cons.IH)
       (intro pres_pendingRequests pres_settle pres_clearTimeout Cons.prems)
qed

lemma pres_rejectAllPending: "preserves c x \<Longrightarrow> preserves c (rejectAllPending reason x)"
  unfolding rejectAllPending_def by (rule pres_rejectAllPending_loop)

lemma pres_run_onReady: "preserves c x \<Longrightarrow> preserves c (run_onReady d ls x)"
proof (induction ls arbitrary: x)
  case Nil
  then show ?case by simp
next
  case (Cons a ls)
  obtain h p where a: "a = (h, p)" by (cases a)
  show ?case
    unfolding a
    by (simp, rule Cons.IH)
       (intro pres_settle pres_startHeartbeat pres_setState pres_clearTimeout Cons.prems)
qed

lemma pres_emit_ready: "preserves c x \<Longrightarrow> preserves c (emit_ready d x)"
  unfolding emit_ready_def
  by (intro pres_run_onReady pres_onReady pres_emit) simp_all

lemmas pres_intros =
  pres_setState pres_emit pres_settle pres_clearTimeout pres_setTimeout pres_new_promise
  pres_transport pres_pendingRequests pres_clientId pres_onReady pres_stopHeartbeat
  pres_startHeartbeat pres_rejectAllPending pres_emit_ready

lemma pres_request:
  assumes "preserves c x"
  shows "preserves c (snd (request rt nonce cmd args evt x))"
proof (rule preserves_trans[OF assms])
  show "preserves x (snd (request rt nonce cmd args evt x))"
    by (auto simp: preserves_def sc_inv_def hb_inv_def fresh_inv_def timeout_inv_def list_all_iff request_def Let_def new_promise_def
          setTimeout_def settle_def split: sum.splits)
qed

lemma pres_clearActivity:
  "preserves c x \<Longrightarrow> preserves c (snd (clearActivity rt nonce x))"
  unfolding clearActivity_def by (rule pres_request)

lemma pres_ping:
  assumes "preserves c x"
  shows "preserves c (fst (ping rt nonce x))"
  using assms by (auto simp: ping_def split: sum.splits intro!: pres_transport)

lemma pres_destroy_finish:
  "preserves c x \<Longrightarrow> preserves c (destroy_finish x)"
  unfolding destroy_finish_def Let_def
  by (intro pres_setState pres_transport pres_rejectAllPending pres_stopHeartbeat)

lemma pres_destroy:
  "preserves c x \<Longrightarrow> preserves c (snd (destroy rt nonce x))"
  using pres_clearActivity[of c x rt nonce]
  by (auto simp: destroy_def split: prod.splits intro!: pres_destroy_finish)

lemma pres_destroy_resume:
  "preserves c x \<Longrightarrow> preserves c (destroy_resume s x)"
  by (auto simp: destroy_resume_def split: settlement.splits
        intro!: pres_destroy_finish pres_setTimeout)

lemma pres_login_start:
  "preserves c x \<Longrightarrow> login_start cid x = Inr x' \<Longrightarrow> preserves c x'"
  by (auto simp: login_start_def split: if_splits intro!: pres_setState pres_clientId)

lemma pres_login_connect:
  "preserves c x \<Longrightarrow> preserves c (snd (login_connect rt x))"
  by (auto simp: login_connect_def split: prod.splits sum.splits
        intro!: pres_setState pres_transport)

lemma pres_login_handshake:
  assumes "preserves c x"
  shows "preserves c (snd (login_handshake rt cid x))"
proof (rule preserves_trans[OF assms])
  show "preserves x (snd (login_handshake rt cid x))"
    by (auto simp: preserves_def sc_inv_def hb_inv_def fresh_inv_def timeout_inv_def list_all_iff login_handshake_def Let_def
          new_promise_def setTimeout_def settle_def split: sum.splits)
qed

lemma pres_request_timeout:
  "preserves c x \<Longrightarrow> preserves c (request_timeout n cmd p x)"
  unfolding request_timeout_def by (intro pres_settle pres_pendingRequests)

lemma pres_onTransportClose:
  "preserves c x \<Longrightarrow> preserves c (onTransportClose x)"
  unfolding onTransportClose_def Let_def
  by (auto intro!: pres_emit pres_setState pres_rejectAllPending pres_stopHeartbeat)

lemma pres_socket_closed:
  "preserves c x \<Longrightarrow> preserves c (socket_closed x)"
  unfolding socket_closed_def by (intro pres_onTransportClose pres_transport)

lemma pres_timer_fires:
  "preserves c x \<Longrightarrow> preserves c (timer_fires rt nonce h x)"
  by (auto simp: timer_fires_def split: option.splits task.splits
        intro!: pres_ping pres_request_timeout pres_destroy pres_destroy_finish
          pres_settle pres_clearTimeout)

lemma pres_onPacket:
  "preserves c x \<Longrightarrow> preserves c (fst (onPacket rt nonce x op raw))"
  by (auto simp: onPacket_def Let_def split: sum.splits option.splits
        intro!: pres_destroy pres_emit pres_emit_ready pres_transport pres_settle
          pres_clearTimeout pres_pendingRequests)

lemma new_Client_invs:
  "sc_inv (new_Client opts)" "hb_inv (new_Client opts)" "fresh_inv (new_Client opts)"
  "timeout_inv (new_Client opts)"
  by (simp_all add: sc_inv_def hb_inv_def fresh_inv_def timeout_inv_def list_all_iff new_Client_def)

lemma reachable_from_invs:
  assumes "reachable_from rt opts c"
  shows "sc_inv c \<and> hb_inv c \<and> fresh_inv c \<and> timeout_inv c \<and>
         options c = options (new_Client opts)"
  using assms
proof (induction rule: reachable_from.induct)
  case created
  show ?case by (simp add: new_Client_invs)
next
  case (login_started c cid c')
  with pres_login_start[OF preserves_refl, of cid c c'] show ?case
    by (simp add: preserves_def)
next
  case (login_connected c)
  with pres_login_connect[OF preserves_refl, of c rt] show ?case
    by (simp add: preserves_def)
next
  case (login_handshaken c cid)
  with pres_login_handshake[OF preserves_refl, of c rt cid] show ?case
    by (simp add: preserves_def)
next
  case (destroyed c nonce)
  with pres_destroy[OF preserves_refl, of c rt nonce] show ?case
    by (simp add: preserves_def)
next
  case (destroy_resumed c s)
  with pres_destroy_resume[OF preserves_refl, of c s] show ?case
    by (simp add: preserves_def)
next
  case (requested c nonce cmd args evt)
  with pres_request[OF preserves_refl, of c rt nonce cmd args evt] show ?case
    by (simp add: preserves_def)
next
  case (pinged c nonce)
  with pres_ping[OF preserves_refl, of c rt nonce] show ?case
    by (simp add: preserves_def)
next
  case (packet c nonce op raw)
  with pres_onPacket[OF preserves_refl, of c rt nonce op raw] show ?case
    by (simp add: preserves_def)
next
  case (timer c nonce h)
  with pres_timer_fires[OF preserves_refl, of c rt nonce h] show ?case
    by (simp add: preserves_def)
next
  case (closed c)
  with pres_socket_closed[OF preserves_refl, of c] show ?case
    by (simp add: preserves_def)
next
  case (transport_changed c t)
  with pres_transport[OF preserves_refl, of c t] show ?case
    by (simp add: preserves_def)
qed

lemma reachable_invs:
  assumes "reachable rt c"
  shows "sc_inv c \<and> hb_inv c \<and> fresh_inv c"
  using assms reachable_from_invs unfolding reachable_def by blast

lemma reachable_from_reachable: "reachable_from rt opts c \<Longrightarrow> reachable rt c"
  unfolding reachable_def by blast

lemma reachable_created: "reachable rt (new_Client opts)"
  unfolding reachable_def by (blast intro: reachable_from.created)

lemma reachable_login_started:
  "reachable rt c \<Longrightarrow> login_start cid c = Inr c' \<Longrightarrow> reachable rt c'"
  unfolding reachable_def by (blast intro: reachable_from.login_started)

lemma reachable_login_connected: "reachable rt c \<Longrightarrow> reachable rt (snd (login_connect rt c))"
  unfolding reachable_def by (blast intro: reachable_from.login_connected)

lemma reachable_login_handshaken:
  "reachable rt c \<Longrightarrow> reachable rt (snd (login_handshake rt cid c))"
  unfolding reachable_def by (blast intro: reachable_from.login_handshaken)


lemma reachable_destroy_resumed: "reachable rt c \<Longrightarrow> reachable rt (destroy_resume s c)"
  unfolding reachable_def by (blast intro: reachable_from.destroy_resumed)

lemma reachable_requested:
  "reachable rt c \<Longrightarrow> reachable rt (snd (request rt nonce cmd args evt c))"
  unfolding reachable_def by (blast intro: reachable_from.requested)

lemma reachable_packet: "reachable rt c \<Longrightarrow> reachable rt (fst (onPacket rt nonce c op raw))"
  unfolding reachable_def by (blast intro: reachable_from.packet)


section \<open>Client: the example session\<close>

lemma login_start_example:
  "login_start ''42'' (new_Client example_options) = Inr session_connecting"
  by (simp add: login_start_def session_connecting_def new_Client_def)

lemma session_connecting_fields:
  "state session_connecting = connecting"
  "emitted session_connecting = [stateChange_event connecting]"
  "transport session_connecting = new_IPCTransport"
  "options session_connecting = \<lparr>heartbeatInterval = 30000, connectionTimeout = 10000\<rparr>"
  "timers session_connecting = []" "fresh session_connecting = 0"
  "onReady session_connecting = []" "pendingRequests session_connecting = []"
  "heartbeatTimer session_connecting = None" "settled session_connecting = []"
  by (simp_all add: session_connecting_def setState_def emit_def new_Client_def example_options_def
        HEARTBEAT_INTERVAL_def)

lemma snap_slot_3_scan:
  "fst (connect (example_host snap_slot_3) None (Some timeout) t) = Inr ()"
  "transport_connected (snd (connect (example_host snap_slot_3) None (Some timeout) t))"
proof -
  have le: "(3::nat) \<le> MAX_PIPE_INDEX" by (simp add: MAX_PIPE_INDEX_def)
  have fails: "\<forall>j. 0 \<le> j \<and> j < 3 \<longrightarrow>
      fst (tryConnect (example_host snap_slot_3) j timeout t) \<noteq> Inr ()"
    using snap_slot_3_fails by blast
  from connect_scan_first_ok[OF _ le fails snap_slot_3_connects, of t]
  show "fst (connect (example_host snap_slot_3) None (Some timeout) t) = Inr ()"
    "transport_connected (snd (connect (example_host snap_slot_3) None (Some timeout) t))"
    by (simp_all add: connect_def)
qed

lemma session_connected_fields:
  "state session_connected = connected"
  "emitted session_connected = [stateChange_event connecting, stateChange_event connected]"
  "transport_connected (transport session_connected)"
  "options session_connected = \<lparr>heartbeatInterval = 30000, connectionTimeout = 10000\<rparr>"
  "timers session_connected = []" "fresh session_connected = 0"
  "onReady session_connected = []" "pendingRequests session_connected = []"
  "heartbeatTimer session_connected = None" "settled session_connected = []"
proof -
  obtain t where c: "connect (example_host snap_slot_3) None (Some 10000) new_IPCTransport = (Inr (), t)"
    and t: "transport_connected t"
    using snap_slot_3_scan[of 10000 new_IPCTransport]
    by (cases "connect (example_host snap_slot_3) None (Some 10000) new_IPCTransport") auto
  have eq: "session_connected = setState connected (session_connecting\<lparr>transport := t\<rparr>)"
    by (simp add: session_connected_def login_connect_def example_runtime_def
          session_connecting_fields c)
  show "state session_connected = connected"
    "emitted session_connected = [stateChange_event connecting, stateChange_event connected]"
    "transport_connected (transport session_connected)"
    "options session_connected = \<lparr>heartbeatInterval = 30000, connectionTimeout = 10000\<rparr>"
    "timers session_connected = []" "fresh session_connected = 0"
    "onReady session_connected = []" "pendingRequests session_connected = []"
    "heartbeatTimer session_connected = None" "settled session_connected = []"
    unfolding eq using t
    by (simp_all add: setState_emitted session_connecting_fields)
qed

lemma session_handshaken_fields:
  "state session_handshaken = connected"
  "emitted session_handshaken = [stateChange_event connecting, stateChange_event connected]"
  "transport_connected (transport session_handshaken)"
  "options session_handshaken = \<lparr>heartbeatInterval = 30000, connectionTimeout = 10000\<rparr>"
  "timers session_handshaken = [(1, 10000, HandshakeTimeout 0)]" "fresh session_handshaken = 2"
  "onReady session_handshaken = [(1, 0)]" "pendingRequests session_handshaken = []"
  "heartbeatTimer session_handshaken = None"
  using session_connected_fields(3)
  by (auto simp: session_handshaken_def login_handshake_def Let_def new_promise_def
        setTimeout_def settle_def session_connected_fields send_keeps_connected
        split: sum.splits)

lemma session_ready_eq:
  "session_ready =
     settle 0 (Resolved (Some (JObj [(''v'', JNum 1)])))
       (startHeartbeat (setState ready (clearTimeout 1
          ((emit (ready_event (Some (JObj [(''v'', JNum 1)]))) session_handshaken)\<lparr>onReady := []\<rparr>))))"
  by (simp add: session_ready_def onPacket_def ready_frame_def Let_def RPCEvent_Ready_def
        emit_ready_def session_handshaken_fields)

lemma session_ready_fields:
  "state session_ready = ready"
  "emitted session_ready =
     [stateChange_event connecting, stateChange_event connected,
      ready_event (Some (JObj [(''v'', JNum 1)])), stateChange_event ready]"
  "transport_connected (transport session_ready)"
  "options session_ready = \<lparr>heartbeatInterval = 30000, connectionTimeout = 10000\<rparr>"
  "timers session_ready = [(2, 30000, Heartbeat)]" "fresh session_ready = 3"
  "pendingRequests session_ready = []"
  "heartbeatTimer session_ready = Some 2"
  unfolding session_ready_eq
  using session_handshaken_fields(3)
  by (simp_all add: settle_def startHeartbeat_def setTimeout_def stopHeartbeat_def
        setState_def emit_def clearTimeout_def session_handshaken_fields)

lemma session_reachable:
  "reachable (example_runtime snap_slot_3) session_connecting"
  "reachable (example_runtime snap_slot_3) session_connected"
  "reachable (example_runtime snap_slot_3) session_handshaken"
  "reachable (example_runtime snap_slot_3) session_ready"
proof -
  show 1: "reachable (example_runtime snap_slot_3) session_connecting"
    using reachable_login_started[OF reachable_created login_start_example] .
  show 2: "reachable (example_runtime snap_slot_3) session_connected"
    unfolding session_connected_def by (rule reachable_login_connected[OF 1])
  show 3: "reachable (example_runtime snap_slot_3) session_handshaken"
    unfolding session_handshaken_def by (rule reachable_login_handshaken[OF 2])
  show "reachable (example_runtime snap_slot_3) session_ready"
    unfolding session_ready_def by (rule reachable_packet[OF 3])
qed

lemma length_bytes_of: "length (bytes_of s) = length s"
  by (simp add: bytes_of_def)

lemma request_sent:
  assumes "state c = ready" "transport_connected (transport c)"
    and "JSON_stringify rt (frame_payload cmd args evt nonce) = Some d" "length d < 2 ^ 32"
  shows "settled (snd (request rt nonce cmd args evt c)) = settled c"
    and "transport_connected (transport (snd (request rt nonce cmd args evt c)))"
    and "heartbeatTimer (snd (request rt nonce cmd args evt c)) = heartbeatTimer c"
    and "onReady (snd (request rt nonce cmd args evt c)) = onReady c"
    and "fresh (snd (request rt nonce cmd args evt c)) = Suc (Suc (fresh c))"
proof -
  have e: "encode (JSON_stringify rt) (op_value Frame) (frame_payload cmd args evt nonce)
      = Inr (le32 1 @ le32 (length d) @ d)"
    using encode_eq[where stringify="JSON_stringify rt"
        and p="frame_payload cmd args evt nonce" and op=1, OF assms(3) _ assms(4)]
    by simp
  show "settled (snd (request rt nonce cmd args evt c)) = settled c"
    "transport_connected (transport (snd (request rt nonce cmd args evt c)))"
    "heartbeatTimer (snd (request rt nonce cmd args evt c)) = heartbeatTimer c"
    "onReady (snd (request rt nonce cmd args evt c)) = onReady c"
    "fresh (snd (request rt nonce cmd args evt c)) = Suc (Suc (fresh c))"
    using assms(1,2) e
    by (simp_all add: request_def Let_def new_promise_def setTimeout_def send_def
          transport_connected_def)
qed

lemma example_payloads:
  "example_stringify (frame_payload ''SET_ACTIVITY'' None None ''7f3a'')
     = Some (bytes_of ''{\"cmd\":\"SET_ACTIVITY\",\"nonce\":\"7f3a\"}'')"
  "example_stringify (frame_payload ''DISPATCH'' None None ''7f3a'')
     = Some (bytes_of ''{\"cmd\":\"DISPATCH\",\"nonce\":\"7f3a\"}'')"
  "example_stringify (frame_payload ''GET_RELATIONSHIPS'' None None ''b2b2'')
     = Some (bytes_of ''{\"cmd\":\"GET_RELATIONSHIPS\",\"nonce\":\"b2b2\"}'')"
  by code_simp+

lemma handshake_payload:
  "example_stringify (JObj [(''v'', JNum IPC_VERSION), (''client_id'', JStr ''42'')])
     = Some (bytes_of ''{\"v\":1,\"client_id\":\"42\"}'')"
  unfolding IPC_VERSION_def by code_simp

lemma session_handshaken_settled: "settled session_handshaken = []"
proof -
  have "length (bytes_of ''{\"v\":1,\"client_id\":\"42\"}'') < 2 ^ 32"
    by (simp add: bytes_of_def)
  from encode_eq[where stringify=example_stringify and op=0, OF handshake_payload _ this]
  obtain packet where e: "encode example_stringify (op_value Handshake)
             (JObj [(''v'', JNum IPC_VERSION), (''client_id'', JStr ''42'')]) = Inr packet"
    by simp
  show ?thesis
    using session_connected_fields(3) e
    by (simp add: session_handshaken_def login_handshake_def Let_def new_promise_def
          setTimeout_def send_def example_runtime_def session_connected_fields)
qed

lemma session_ready_more:
  "settled session_ready = [(0, Resolved (Some (JObj [(''v'', JNum 1)])))]"
  "onReady session_ready = []"
  unfolding session_ready_eq
  by (simp_all add: settle_def startHeartbeat_def setTimeout_def stopHeartbeat_def
        setState_def emit_def clearTimeout_def session_handshaken_fields
        session_handshaken_settled)

lemma example_client_fields:
  assumes "example_stringify (frame_payload cmd None None ''7f3a'') = Some d" "length d < 2 ^ 32"
  shows "pendingRequests (example_client cmd) = [(''7f3a'', \<lparr>promise = 3, timer = 4\<rparr>)]"
    and "timers (example_client cmd) = [(2, 30000, Heartbeat), (4, 10000, RequestTimeout ''7f3a'' cmd 3)]"
    and "settled (example_client cmd) = [(0, Resolved (Some (JObj [(''v'', JNum 1)])))]"
    and "emitted (example_client cmd) =
           [stateChange_event connecting, stateChange_event connected,
            ready_event (Some (JObj [(''v'', JNum 1)])), stateChange_event ready]"
    and "state (example_client cmd) = ready"
    and "onReady (example_client cmd) = []"
    and "heartbeatTimer (example_client cmd) = Some 2"
    and "fresh (example_client cmd) = 5"
    and "transport_connected (transport (example_client cmd))"
    and "reachable (example_runtime snap_slot_3) (example_client cmd)"
proof -
  note s = session_ready_fields(1)
  have js: "JSON_stringify (example_runtime snap_slot_3) (frame_payload cmd None None ''7f3a'') = Some d"
    using assms(1) by (simp add: example_runtime_def)
  note sent = request_sent[OF s session_ready_fields(3) js assms(2)]
  show "pendingRequests (example_client cmd) = [(''7f3a'', \<lparr>promise = 3, timer = 4\<rparr>)]"
    "timers (example_client cmd) = [(2, 30000, Heartbeat), (4, 10000, RequestTimeout ''7f3a'' cmd 3)]"
    "emitted (example_client cmd) =
           [stateChange_event connecting, stateChange_event connected,
            ready_event (Some (JObj [(''v'', JNum 1)])), stateChange_event ready]"
    "state (example_client cmd) = ready"
    unfolding example_client_def
    by (simp_all add: request_ready[OF s] session_ready_fields)
  show "settled (example_client cmd) = [(0, Resolved (Some (JObj [(''v'', JNum 1)])))]"
    "onReady (example_client cmd) = []"
    "heartbeatTimer (example_client cmd) = Some 2"
    "fresh (example_client cmd) = 5"
    "transport_connected (transport (example_client cmd))"
    unfolding example_client_def
    using sent by (simp_all add: session_ready_more session_ready_fields)
  show "reachable (example_runtime snap_slot_3) (example_client cmd)"
    unfolding example_client_def by (rule reachable_requested[OF session_reachable(4)])
qed

lemma example_payload_lengths:
  "length (bytes_of ''{\"cmd\":\"SET_ACTIVITY\",\"nonce\":\"7f3a\"}'') < 2 ^ 32"
  "length (bytes_of ''{\"cmd\":\"DISPATCH\",\"nonce\":\"7f3a\"}'') < 2 ^ 32"
  "length (bytes_of ''{\"cmd\":\"GET_RELATIONSHIPS\",\"nonce\":\"b2b2\"}'') < 2 ^ 32"
  by (simp_all add: length_bytes_of)

lemmas example_client_SET_ACTIVITY = example_client_fields[OF example_payloads(1) example_payload_lengths(1)]

lemmas example_client_DISPATCH = example_client_fields[OF example_payloads(2) example_payload_lengths(2)]


lemma example_client_timeout:
  assumes "example_stringify (frame_payload cmd None None ''7f3a'') = Some d" "length d < 2 ^ 32"
  shows "timer_fires rt u 4 (example_client cmd)
     = (example_client cmd)
         \<lparr>pendingRequests := [], timers := [(2, 30000, Heartbeat)],
          settled := [(0, Resolved (Some (JObj [(''v'', JNum 1)]))),
                      (3, Rejected (TimeoutError (''Request '' @ cmd @ '' timed out.'')))]\<rparr>"
  by (simp add: timer_fires_def request_timeout_def clearTimeout_def settle_def
        example_client_fields(1-8)[OF assms])





lemma login_start_with: "login_start ''42'' (new_Client opts) = Inr (connecting_with opts)"
  by (simp add: login_start_def connecting_with_def new_Client_def)

lemma connecting_with_fields:
  "state (connecting_with opts) = connecting"
  "transport (connecting_with opts) = new_IPCTransport"
  "options (connecting_with opts) = options (new_Client opts)"
  "timers (connecting_with opts) = []" "fresh (connecting_with opts) = 0"
  "onReady (connecting_with opts) = []" "pendingRequests (connecting_with opts) = []"
  "heartbeatTimer (connecting_with opts) = None" "settled (connecting_with opts) = []"
  by (simp_all add: connecting_with_def new_Client_def)

lemma connected_with_fields:
  "state (connected_with opts) = connected"
  "transport_connected (transport (connected_with opts))"
  "options (connected_with opts) = options (new_Client opts)"
  "timers (connected_with opts) = []" "fresh (connected_with opts) = 0"
  "onReady (connected_with opts) = []" "pendingRequests (connected_with opts) = []"
  "heartbeatTimer (connected_with opts) = None" "settled (connected_with opts) = []"
proof -
  let ?T = "connectionTimeout (options (new_Client opts))"
  obtain t where c: "connect (example_host snap_slot_3) None (Some ?T) new_IPCTransport = (Inr (), t)"
    and t: "transport_connected t"
    using snap_slot_3_scan[of ?T new_IPCTransport]
    by (cases "connect (example_host snap_slot_3) None (Some ?T) new_IPCTransport") auto
  have eq: "connected_with opts = setState connected ((connecting_with opts)\<lparr>transport := t\<rparr>)"
    by (simp add: connected_with_def login_connect_def example_runtime_def
          connecting_with_fields c)
  show "state (connected_with opts) = connected"
    "transport_connected (transport (connected_with opts))"
    "options (connected_with opts) = options (new_Client opts)"
    "timers (connected_with opts) = []" "fresh (connected_with opts) = 0"
    "onReady (connected_with opts) = []" "pendingRequests (connected_with opts) = []"
    "heartbeatTimer (connected_with opts) = None" "settled (connected_with opts) = []"
    unfolding eq using t
    by (simp_all add: connecting_with_fields)
qed

lemma handshaken_with_fields:
  "state (handshaken_with opts) = connected"
  "transport_connected (transport (handshaken_with opts))"
  "options (handshaken_with opts) = options (new_Client opts)"
  "timers (handshaken_with opts)
     = [(1, connectionTimeout (options (new_Client opts)), HandshakeTimeout 0)]"
  "fresh (handshaken_with opts) = 2"
  "onReady (handshaken_with opts) = [(1, 0)]" "pendingRequests (handshaken_with opts) = []"
  "heartbeatTimer (handshaken_with opts) = None"
  using connected_with_fields(2)[of opts]
  by (auto simp: handshaken_with_def login_handshake_def Let_def new_promise_def
        setTimeout_def settle_def connected_with_fields send_keeps_connected
        split: sum.splits)

lemma ready_with_eq:
  "ready_with opts =
     settle 0 (Resolved (Some (JObj [(''v'', JNum 1)])))
       (startHeartbeat (setState ready (clearTimeout 1
          ((emit (ready_event (Some (JObj [(''v'', JNum 1)]))) (handshaken_with opts))\<lparr>onReady := []\<rparr>))))"
  by (simp add: ready_with_def onPacket_def ready_frame_def Let_def RPCEvent_Ready_def
        emit_ready_def handshaken_with_fields)

lemma ready_with_fields:
  "state (ready_with opts) = ready"
  "transport_connected (transport (ready_with opts))"
  "options (ready_with opts) = options (new_Client opts)"
  "timers (ready_with opts) = [(2, heartbeatInterval (options (new_Client opts)), Heartbeat)]"
  "fresh (ready_with opts) = 3"
  "pendingRequests (ready_with opts) = []"
  "heartbeatTimer (ready_with opts) = Some 2"
  unfolding ready_with_eq
  using handshaken_with_fields(2)[of opts]
  by (simp_all add: settle_def startHeartbeat_def setTimeout_def stopHeartbeat_def
        setState_def emit_def clearTimeout_def handshaken_with_fields)

lemma with_reachable:
  "reachable_from (example_runtime snap_slot_3) opts (connecting_with opts)"
  "reachable_from (example_runtime snap_slot_3) opts (connected_with opts)"
  "reachable_from (example_runtime snap_slot_3) opts (handshaken_with opts)"
  "reachable_from (example_runtime snap_slot_3) opts (ready_with opts)"
proof -
  show 1: "reachable_from (example_runtime snap_slot_3) opts (connecting_with opts)"
    using reachable_from.login_started[OF reachable_from.created login_start_with] .
  show 2: "reachable_from (example_runtime snap_slot_3) opts (connected_with opts)"
    unfolding connected_with_def by (rule reachable_from.login_connected[OF 1])
  show 3: "reachable_from (example_runtime snap_slot_3) opts (handshaken_with opts)"
    unfolding handshaken_with_def by (rule reachable_from.login_handshaken[OF 2])
  show "reachable_from (example_runtime snap_slot_3) opts (ready_with opts)"
    unfolding ready_with_def by (rule reachable_from.packet[OF 3])
qed

lemma custom_options_resolved:
  "options (new_Client custom_options) = \<lparr>heartbeatInterval = 30000, connectionTimeout = 2500\<rparr>"
  "options (new_Client example_options) = \<lparr>heartbeatInterval = 30000, connectionTimeout = 10000\<rparr>"
  by (simp_all add: new_Client_def custom_options_def example_options_def HEARTBEAT_INTERVAL_def)

lemma snap_slot_3_tried:
  "attempts (snd (tryConnect (example_host snap_slot_3) 0 T t))
     = attempts t @ map (\<lambda>p. (p, T))
        [''/run/user/1000/discord-ipc-0'',
         ''/run/user/1000/app/com.discordapp.Discord/discord-ipc-0'',
         ''/run/user/1000/snap.discord/discord-ipc-0'']"
  "attempts (snd (tryConnect (example_host snap_slot_3) 1 T t))
     = attempts t @ map (\<lambda>p. (p, T))
        [''/run/user/1000/discord-ipc-1'',
         ''/run/user/1000/app/com.discordapp.Discord/discord-ipc-1'',
         ''/run/user/1000/snap.discord/discord-ipc-1'']"
  "attempts (snd (tryConnect (example_host snap_slot_3) 2 T t))
     = attempts t @ map (\<lambda>p. (p, T))
        [''/run/user/1000/discord-ipc-2'',
         ''/run/user/1000/app/com.discordapp.Discord/discord-ipc-2'',
         ''/run/user/1000/snap.discord/discord-ipc-2'']"
  "attempts (snd (tryConnect (example_host snap_slot_3) 3 T t))
     = attempts t @ map (\<lambda>p. (p, T))
        [''/run/user/1000/discord-ipc-3'',
         ''/run/user/1000/app/com.discordapp.Discord/discord-ipc-3'',
         ''/run/user/1000/snap.discord/discord-ipc-3'']"
  by (simp_all add: tryConnect_characterised(2)[OF example_host_nonempty] example_host_paths
        String_nat_digit digit_chars paths_tried_def falls_through_def snap_slot_3_def)

lemma snap_slot_3_attempts:
  "attempts (snd (connect (example_host snap_slot_3) None (Some T) t))
     = attempts t @ map (\<lambda>p. (p, T))
        [''/run/user/1000/discord-ipc-0'',
         ''/run/user/1000/app/com.discordapp.Discord/discord-ipc-0'',
         ''/run/user/1000/snap.discord/discord-ipc-0'',
         ''/run/user/1000/discord-ipc-1'',
         ''/run/user/1000/app/com.discordapp.Discord/discord-ipc-1'',
         ''/run/user/1000/snap.discord/discord-ipc-1'',
         ''/run/user/1000/discord-ipc-2'',
         ''/run/user/1000/app/com.discordapp.Discord/discord-ipc-2'',
         ''/run/user/1000/snap.discord/discord-ipc-2'',
         ''/run/user/1000/discord-ipc-3'',
         ''/run/user/1000/app/com.discordapp.Discord/discord-ipc-3'',
         ''/run/user/1000/snap.discord/discord-ipc-3'']"
proof -
  let ?h = "example_host snap_slot_3"
  let ?t1 = "snd (tryConnect ?h 0 T t)"
  let ?t2 = "snd (tryConnect ?h 1 T ?t1)"
  let ?t3 = "snd (tryConnect ?h 2 T ?t2)"
  have le: "(0::nat) \<le> MAX_PIPE_INDEX" "(1::nat) \<le> MAX_PIPE_INDEX" "(2::nat) \<le> MAX_PIPE_INDEX"
    "(3::nat) \<le> MAX_PIPE_INDEX"
    by (simp_all add: MAX_PIPE_INDEX_def)
  have f0: "fst (tryConnect ?h 0 T t) \<noteq> Inr ()" by (rule snap_slot_3_fails) simp
  have f1: "fst (tryConnect ?h 1 T ?t1) \<noteq> Inr ()" by (rule snap_slot_3_fails) simp
  have f2: "fst (tryConnect ?h 2 T ?t2) \<noteq> Inr ()" by (rule snap_slot_3_fails) simp
  note ok = snap_slot_3_connects[of T ?t3]
  have s1: "connect_scan ?h T 0 t = connect_scan ?h T 1 ?t1"
    using connect_scan_fail[OF le(1) f0] by simp
  have s2: "connect_scan ?h T 1 ?t1 = connect_scan ?h T 2 ?t2"
    using connect_scan_fail[OF le(2) f1] by (simp add: numeral_2_eq_2)
  have s3: "connect_scan ?h T 2 ?t2 = connect_scan ?h T 3 ?t3"
    using connect_scan_fail[OF le(3) f2] by (simp add: numeral_3_eq_3 numeral_2_eq_2)
  have e: "connect ?h None (Some T) t = (Inr (), snd (tryConnect ?h 3 T ?t3))"
    unfolding connect_def Let_def using s1 s2 s3 connect_scan_ok[OF le(4) ok] by simp
  show ?thesis
    unfolding e using snap_slot_3_tried[of T] by simp
qed

section \<open>Client: requests and responses\<close>

text \<open>
  Claim C6. In every state other than \<open>ready\<close>, \<open>request\<close> returns a promise
  already rejected with the state error and leaves the client as it was: nothing is
  written to the transport and no entry is added to the pending requests.
\<close>

theorem request_requires_ready:
  assumes "state c \<noteq> ready"
  shows "request rt nonce cmd args evt c
           = (Promise_reject (StateError ''Client is not ready. Call login() first.''), c)"
  using assms by (simp add: request_def)

theorem request_requires_ready_witness:
  "state (new_Client \<lparr>opt_heartbeatInterval = None, opt_connectionTimeout = None,
                     opt_pipeIndex = None\<rparr>) \<noteq> ready \<and>
   request (example_runtime nothing_listens) ''7f3a'' ''SET_ACTIVITY'' None None
     (new_Client \<lparr>opt_heartbeatInterval = None, opt_connectionTimeout = None, opt_pipeIndex = None\<rparr>)
     = (Promise_reject (StateError ''Client is not ready. Call login() first.''),
        new_Client \<lparr>opt_heartbeatInterval = None, opt_connectionTimeout = None,
                    opt_pipeIndex = None\<rparr>) \<and>
   written (transport (snd (request (example_runtime nothing_listens) ''7f3a'' ''SET_ACTIVITY'' None None
     (new_Client \<lparr>opt_heartbeatInterval = None, opt_connectionTimeout = None,
                  opt_pipeIndex = None\<rparr>)))) = [] \<and>
   pendingRequests (snd (request (example_runtime nothing_listens) ''7f3a'' ''SET_ACTIVITY'' None None
     (new_Client \<lparr>opt_heartbeatInterval = None, opt_connectionTimeout = None,
                  opt_pipeIndex = None\<rparr>))) = []"
proof -
  let ?c = "new_Client \<lparr>opt_heartbeatInterval = None, opt_connectionTimeout = None,
                        opt_pipeIndex = None\<rparr>"
  have h: "state ?c \<noteq> ready" by (simp add: new_Client_def)
  from request_requires_ready[OF h, of "example_runtime nothing_listens" "''7f3a''"
      "''SET_ACTIVITY''" None None] h
  show ?thesis by (simp add: new_Client_def new_IPCTransport_def)
qed




text \<open>
  Claim C4, as stated, fails. In the example session the request pending under the
  token \<open>7f3a\<close> was sent with the command \<open>DISPATCH\<close>. Its timer fires: the entry is
  removed and the promise is rejected with the timeout error. The error response
  that arrives afterwards with that token matches no entry, and it is then delivered
  to the observers as an \<open>rpcEvent\<close>, because its command is \<open>DISPATCH\<close> and it has an
  event name.
\<close>

theorem late_dispatch_response_is_delivered:
  "reachable (example_runtime snap_slot_3) (example_client ''DISPATCH'') \<and>
   pendingRequests (example_client ''DISPATCH'') = [(''7f3a'', \<lparr>promise = 3, timer = 4\<rparr>)] \<and>
   timers (example_client ''DISPATCH'')
     = [(2, 30000, Heartbeat), (4, 10000, RequestTimeout ''7f3a'' ''DISPATCH'' 3)] \<and>
   timer_fires (example_runtime snap_slot_3) ''c0de'' 4 (example_client ''DISPATCH'')
     = (example_client ''DISPATCH'')
         \<lparr>pendingRequests := [], timers := [(2, 30000, Heartbeat)],
          settled := [(0, Resolved (Some (JObj [(''v'', JNum 1)]))),
                      (3, Rejected (TimeoutError ''Request DISPATCH timed out.''))]\<rparr> \<and>
   emitted
     (fst (onPacket (example_runtime snap_slot_3) ''c0de''
             (timer_fires (example_runtime snap_slot_3) ''c0de'' 4 (example_client ''DISPATCH''))
             1
             (JObj [(''cmd'', JStr ''DISPATCH''), (''evt'', JStr ''ERROR''), (''nonce'', JStr ''7f3a''),
                    (''data'', JObj [(''code'', JNum 4002), (''message'', JStr ''Invalid command'')])])))
     = emitted (example_client ''DISPATCH'')
       @ [rpcEvent_event (Some (JStr ''ERROR''))
            (Some (JObj [(''code'', JNum 4002), (''message'', JStr ''Invalid command'')]))]"
proof -
  note t = example_client_timeout[OF example_payloads(2) example_payload_lengths(2),
      of "example_runtime snap_slot_3" "''c0de''"]
  have t': "timer_fires (example_runtime snap_slot_3) ''c0de'' 4 (example_client ''DISPATCH'')
     = (example_client ''DISPATCH'')
         \<lparr>pendingRequests := [], timers := [(2, 30000, Heartbeat)],
          settled := [(0, Resolved (Some (JObj [(''v'', JNum 1)]))),
                      (3, Rejected (TimeoutError ''Request DISPATCH timed out.''))]\<rparr>"
    using t by simp
  show ?thesis
    unfolding t'
    using example_client_DISPATCH(10)
    by (simp add: onPacket_def Let_def RPCEvent_Ready_def RPCEvent_Error_def Command_Dispatch_def
          pending_get_def emit_def example_client_DISPATCH(1-8))
qed

text \<open>
  Claim C4, amended. When the timer of a request fires, the timer is disarmed, the
  entry under its token is removed and the promise is rejected with the timeout
  error; nothing is emitted. A frame that arrives afterwards with that token (not
  the empty string) and an event other than \<open>READY\<close> matches no entry: nothing is
  resolved or rejected, and the client is left exactly as it was unless the command
  of the frame is \<open>DISPATCH\<close> and it has an event name, in which case it is emitted
  as an \<open>rpcEvent\<close> and nothing else changes.
\<close>

theorem timeout_rejects_and_late_response_is_unmatched:
  "(map_of (timers c) h = Some (delay, RequestTimeout n cmd p) \<longrightarrow>
      timer_fires rt u h c = request_timeout n cmd p (clearTimeout h c) \<and>
      h \<notin> fst ` set (timers (timer_fires rt u h c))) \<and>
   pendingRequests (request_timeout n cmd p c) = AList.delete n (pendingRequests c) \<and>
   map_of (pendingRequests (request_timeout n cmd p c)) n = None \<and>
   settled (request_timeout n cmd p c)
     = settled c @ [(p, Rejected (TimeoutError (''Request '' @ cmd @ '' timed out.'')))] \<and>
   emitted (request_timeout n cmd p c) = emitted c \<and>
   (map_of (pendingRequests c) n = None \<and> n \<noteq> [] \<and>
    get raw ''nonce'' = Some (JStr n) \<and>
    get raw ''evt'' \<noteq> Some (JStr RPCEvent_Ready) \<longrightarrow>
      onPacket rt u c (op_value Frame) raw =
        (if get raw ''cmd'' = Some (JStr Command_Dispatch) \<and> truthy (get raw ''evt'')
         then (emit (rpcEvent_event (get raw ''evt'') (get raw ''data'')) c, None)
         else (c, None)))"
proof -
  have fire: "timer_fires rt u h c = request_timeout n cmd p (clearTimeout h c) \<and>
      h \<notin> fst ` set (timers (timer_fires rt u h c))"
    if "map_of (timers c) h = Some (delay, RequestTimeout n cmd p)"
    using that
    by (simp add: timer_fires_def request_timeout_def clearTimeout_def settle_def delete_notin_dom)
  have late: "onPacket rt u c (op_value Frame) raw =
        (if get raw ''cmd'' = Some (JStr Command_Dispatch) \<and> truthy (get raw ''evt'')
         then (emit (rpcEvent_event (get raw ''evt'') (get raw ''data'')) c, None)
         else (c, None))"
    if "map_of (pendingRequests c) n = None" "n \<noteq> []" "get raw ''nonce'' = Some (JStr n)"
       "get raw ''evt'' \<noteq> Some (JStr RPCEvent_Ready)"
    using onPacket_unmatched[OF that] .
  have A: "map_of (timers c) h = Some (delay, RequestTimeout n cmd p) \<longrightarrow>
      timer_fires rt u h c = request_timeout n cmd p (clearTimeout h c) \<and>
      h \<notin> fst ` set (timers (timer_fires rt u h c))"
    using fire by blast
  have B: "pendingRequests (request_timeout n cmd p c) = AList.delete n (pendingRequests c)"
    by (simp add: request_timeout_def settle_def)
  have C: "map_of (pendingRequests (request_timeout n cmd p c)) n = None"
    by (simp add: B delete_conv)
  have D: "settled (request_timeout n cmd p c)
     = settled c @ [(p, Rejected (TimeoutError (''Request '' @ cmd @ '' timed out.'')))]"
    by (simp add: request_timeout_def settle_def)
  have E: "emitted (request_timeout n cmd p c) = emitted c"
    by (simp add: request_timeout_def settle_def)
  have F: "map_of (pendingRequests c) n = None \<and> n \<noteq> [] \<and>
    get raw ''nonce'' = Some (JStr n) \<and>
    get raw ''evt'' \<noteq> Some (JStr RPCEvent_Ready) \<longrightarrow>
      onPacket rt u c (op_value Frame) raw =
        (if get raw ''cmd'' = Some (JStr Command_Dispatch) \<and> truthy (get raw ''evt'')
         then (emit (rpcEvent_event (get raw ''evt'') (get raw ''data'')) c, None)
         else (c, None))"
    using late by blast
  from A B C D E F show ?thesis by (intro conjI)
qed

theorem timeout_rejects_and_late_response_is_unmatched_witness:
  "map_of (timers (example_client ''SET_ACTIVITY'')) 4
     = Some (10000, RequestTimeout ''7f3a'' ''SET_ACTIVITY'' 3) \<and>
   timer_fires (example_runtime snap_slot_3) ''c0de'' 4 (example_client ''SET_ACTIVITY'')
     = (example_client ''SET_ACTIVITY'')
         \<lparr>pendingRequests := [], timers := [(2, 30000, Heartbeat)],
          settled := [(0, Resolved (Some (JObj [(''v'', JNum 1)]))),
                      (3, Rejected (TimeoutError ''Request SET_ACTIVITY timed out.''))]\<rparr> \<and>
   onPacket (example_runtime snap_slot_3) ''c0de''
     (timer_fires (example_runtime snap_slot_3) ''c0de'' 4 (example_client ''SET_ACTIVITY''))
     1
     (JObj [(''cmd'', JStr ''SET_ACTIVITY''), (''evt'', JNull), (''nonce'', JStr ''7f3a''),
            (''data'', JObj [])])
     = (timer_fires (example_runtime snap_slot_3) ''c0de'' 4 (example_client ''SET_ACTIVITY''),
        None)"
proof -
  let ?c = "example_client ''SET_ACTIVITY''"
  let ?rt = "example_runtime snap_slot_3"
  let ?raw = "JObj [(''cmd'', JStr ''SET_ACTIVITY''), (''evt'', JNull), (''nonce'', JStr ''7f3a''),
            (''data'', JObj [])]"
  note f = example_client_SET_ACTIVITY(1-8)
  have h1: "map_of (timers ?c) 4 = Some (10000, RequestTimeout ''7f3a'' ''SET_ACTIVITY'' 3)"
    by (simp add: f)
  note thm1 = timeout_rejects_and_late_response_is_unmatched[of ?c 4 10000 "''7f3a''"
      "''SET_ACTIVITY''" 3 ?rt "''c0de''" ?raw]
  from thm1 h1 have fire: "timer_fires ?rt ''c0de'' 4 ?c
      = request_timeout ''7f3a'' ''SET_ACTIVITY'' 3 (clearTimeout 4 ?c)"
    by blast
  have t: "timer_fires ?rt ''c0de'' 4 ?c
     = ?c\<lparr>pendingRequests := [], timers := [(2, 30000, Heartbeat)],
          settled := [(0, Resolved (Some (JObj [(''v'', JNum 1)]))),
                      (3, Rejected (TimeoutError ''Request SET_ACTIVITY timed out.''))]\<rparr>"
    unfolding fire
    by (simp add: request_timeout_def clearTimeout_def settle_def f)
  let ?c2 = "timer_fires ?rt ''c0de'' 4 ?c"
  have k1: "map_of (pendingRequests ?c2) ''7f3a'' = None" unfolding t by simp
  have k3: "get ?raw ''nonce'' = Some (JStr ''7f3a'')" by simp
  have k4: "get ?raw ''evt'' \<noteq> Some (JStr RPCEvent_Ready)" by simp
  note thm2 = timeout_rejects_and_late_response_is_unmatched[of ?c2 4 10000 "''7f3a''"
      "''SET_ACTIVITY''" 3 ?rt "''c0de''" ?raw]
  from thm2 k1 k3 k4 have "onPacket ?rt ''c0de'' ?c2 (op_value Frame) ?raw = (?c2, None)"
    by (simp add: Command_Dispatch_def)
  then have l: "onPacket ?rt ''c0de'' ?c2 1 ?raw = (?c2, None)" by simp
  from h1 t l show ?thesis by blast
qed

section \<open>Client: teardown\<close>




section \<open>Client: timeouts and state notifications\<close>

text \<open>
  Claim C9. Let a client be constructed with the options \<open>opts\<close>, and let \<open>T\<close> be
  the connection timeout they supply, or 10000 when they supply none. Then on every
  client that arises from it the option \<open>connectionTimeout\<close> is \<open>T\<close>, and every armed
  timeout of a request or of a handshake has the delay \<open>T\<close>. The timer that \<open>request\<close>
  arms in the state \<open>ready\<close> (it arms none in any other state) has the delay \<open>T\<close>.
  \<open>login\<close> hands \<open>T\<close> to \<open>transport.connect\<close>, so every path attempt it makes is
  armed with \<open>T\<close>, and arms the handshake timer with \<open>T\<close>. The options hold no
  other timeout.
\<close>

theorem timeouts_use_connectionTimeout:
  assumes "reachable_from rt opts c"
    and "T = (case opt_connectionTimeout opts of None \<Rightarrow> 10000 | Some ms \<Rightarrow> ms)"
  shows "connectionTimeout (options c) = T \<and>
         list_all (\<lambda>t. \<not> is_timeout (snd (snd t)) \<or> fst (snd t) = T) (timers c) \<and>
         (state c = ready \<longrightarrow>
            timers (snd (request rt nonce cmd args evt c))
              = timers c @ [(Suc (fresh c), T, RequestTimeout nonce cmd (fresh c))]) \<and>
         (state c \<noteq> ready \<longrightarrow> timers (snd (request rt nonce cmd args evt c)) = timers c) \<and>
         (\<exists>paths. attempts (transport (snd (login_connect rt c)))
                    = attempts (transport c) @ map (\<lambda>p. (p, T)) paths) \<and>
         timers (snd (login_handshake rt cid c))
           = timers c @ [(Suc (fresh c), T, HandshakeTimeout (fresh c))]"
proof -
  from reachable_from_invs[OF assms(1)]
  have inv: "timeout_inv c" and opts: "options c = options (new_Client opts)"
    by simp_all
  have A: "connectionTimeout (options c) = T"
    unfolding opts assms(2) by (simp add: new_Client_def)
  have B: "list_all (\<lambda>t. \<not> is_timeout (snd (snd t)) \<or> fst (snd t) = T) (timers c)"
    using inv unfolding timeout_inv_def A .
  have C: "state c = ready \<longrightarrow>
      timers (snd (request rt nonce cmd args evt c))
        = timers c @ [(Suc (fresh c), T, RequestTimeout nonce cmd (fresh c))]"
    using request_ready(3)[of c rt nonce cmd args evt] by (simp add: A)
  have D: "state c \<noteq> ready \<longrightarrow> timers (snd (request rt nonce cmd args evt c)) = timers c"
    by (simp add: request_def)
  have E: "\<exists>paths. attempts (transport (snd (login_connect rt c)))
                    = attempts (transport c) @ map (\<lambda>p. (p, T)) paths"
    using login_connect_attempts[of rt c] by (simp add: A)
  have F: "timers (snd (login_handshake rt cid c))
           = timers c @ [(Suc (fresh c), T, HandshakeTimeout (fresh c))]"
    using login_handshake_timers[of rt cid c] by (simp add: A)
  from A B C D E F show ?thesis by (intro conjI)
qed

theorem timeouts_use_connectionTimeout_witness:
  "reachable_from (example_runtime snap_slot_3) custom_options (ready_with custom_options) \<and>
   (2500::nat) = (case opt_connectionTimeout custom_options of None \<Rightarrow> 10000 | Some ms \<Rightarrow> ms) \<and>
   state (ready_with custom_options) = ready \<and>
   connectionTimeout (options (ready_with custom_options)) = 2500 \<and>
   timers (snd (request (example_runtime snap_slot_3) ''c0de'' ''GET_RELATIONSHIPS'' None None
                  (ready_with custom_options)))
     = [(2, 30000, Heartbeat), (4, 2500, RequestTimeout ''c0de'' ''GET_RELATIONSHIPS'' 3)] \<and>
   reachable_from (example_runtime snap_slot_3) custom_options (connected_with custom_options) \<and>
   timers (handshaken_with custom_options) = [(1, 2500, HandshakeTimeout 0)] \<and>
   reachable_from (example_runtime snap_slot_3) custom_options (connecting_with custom_options) \<and>
   attempts (transport (connected_with custom_options))
     = [(''/run/user/1000/discord-ipc-0'', 2500),
        (''/run/user/1000/app/com.discordapp.Discord/discord-ipc-0'', 2500),
        (''/run/user/1000/snap.discord/discord-ipc-0'', 2500),
        (''/run/user/1000/discord-ipc-1'', 2500),
        (''/run/user/1000/app/com.discordapp.Discord/discord-ipc-1'', 2500),
        (''/run/user/1000/snap.discord/discord-ipc-1'', 2500),
        (''/run/user/1000/discord-ipc-2'', 2500),
        (''/run/user/1000/app/com.discordapp.Discord/discord-ipc-2'', 2500),
        (''/run/user/1000/snap.discord/discord-ipc-2'', 2500),
        (''/run/user/1000/discord-ipc-3'', 2500),
        (''/run/user/1000/app/com.discordapp.Discord/discord-ipc-3'', 2500),
        (''/run/user/1000/snap.discord/discord-ipc-3'', 2500)] \<and>
   reachable_from (example_runtime snap_slot_3) example_options (ready_with example_options) \<and>
   (10000::nat) = (case opt_connectionTimeout example_options of None \<Rightarrow> 10000 | Some ms \<Rightarrow> ms) \<and>
   connectionTimeout (options (ready_with example_options)) = 10000 \<and>
   timers (snd (request (example_runtime snap_slot_3) ''c0de'' ''GET_RELATIONSHIPS'' None None
                  (ready_with example_options)))
     = [(2, 30000, Heartbeat), (4, 10000, RequestTimeout ''c0de'' ''GET_RELATIONSHIPS'' 3)]"
proof -
  let ?rt = "example_runtime snap_slot_3"
  note r = with_reachable[of custom_options]
  have T: "(2500::nat) = (case opt_connectionTimeout custom_options of None \<Rightarrow> 10000 | Some ms \<Rightarrow> ms)"
    by (simp add: custom_options_def)
  note s = ready_with_fields(1)[of custom_options]
  note o = custom_options_resolved
  note at_ready = timeouts_use_connectionTimeout[OF r(4) T, of "''c0de''" "''GET_RELATIONSHIPS''"
      None None "''42''"]
  from at_ready have a: "connectionTimeout (options (ready_with custom_options)) = 2500"
    by blast
  from at_ready s
  have "timers (snd (request ?rt ''c0de'' ''GET_RELATIONSHIPS'' None None (ready_with custom_options)))
      = timers (ready_with custom_options)
        @ [(Suc (fresh (ready_with custom_options)), 2500,
            RequestTimeout ''c0de'' ''GET_RELATIONSHIPS'' (fresh (ready_with custom_options)))]"
    by blast
  then have b: "timers (snd (request ?rt ''c0de'' ''GET_RELATIONSHIPS'' None None
                  (ready_with custom_options)))
     = [(2, 30000, Heartbeat), (4, 2500, RequestTimeout ''c0de'' ''GET_RELATIONSHIPS'' 3)]"
    by (simp add: ready_with_fields o)
  from timeouts_use_connectionTimeout[OF r(2) T, of "''c0de''" "''GET_RELATIONSHIPS''"
      None None "''42''"]
  have "timers (snd (login_handshake ?rt ''42'' (connected_with custom_options)))
     = timers (connected_with custom_options)
       @ [(Suc (fresh (connected_with custom_options)), 2500,
           HandshakeTimeout (fresh (connected_with custom_options)))]"
    by blast
  then have c: "timers (handshaken_with custom_options) = [(1, 2500, HandshakeTimeout 0)]"
    by (simp add: handshaken_with_def connected_with_fields)
  have "attempts (transport (snd (login_connect ?rt (connecting_with custom_options))))
      = attempts (snd (connect (example_host snap_slot_3) None (Some 2500) new_IPCTransport))"
    using snap_slot_3_scan(1)[of 2500 new_IPCTransport]
    by (auto simp: login_connect_def example_runtime_def connecting_with_fields o
          split: prod.splits sum.splits)
  then have d: "attempts (transport (connected_with custom_options))
     = [(''/run/user/1000/discord-ipc-0'', 2500),
        (''/run/user/1000/app/com.discordapp.Discord/discord-ipc-0'', 2500),
        (''/run/user/1000/snap.discord/discord-ipc-0'', 2500),
        (''/run/user/1000/discord-ipc-1'', 2500),
        (''/run/user/1000/app/com.discordapp.Discord/discord-ipc-1'', 2500),
        (''/run/user/1000/snap.discord/discord-ipc-1'', 2500),
        (''/run/user/1000/discord-ipc-2'', 2500),
        (''/run/user/1000/app/com.discordapp.Discord/discord-ipc-2'', 2500),
        (''/run/user/1000/snap.discord/discord-ipc-2'', 2500),
        (''/run/user/1000/discord-ipc-3'', 2500),
        (''/run/user/1000/app/com.discordapp.Discord/discord-ipc-3'', 2500),
        (''/run/user/1000/snap.discord/discord-ipc-3'', 2500)]"
    by (simp add: connected_with_def snap_slot_3_attempts new_IPCTransport_def)
  note r' = with_reachable(4)[of example_options]
  have T': "(10000::nat) = (case opt_connectionTimeout example_options of None \<Rightarrow> 10000 | Some ms \<Rightarrow> ms)"
    by (simp add: example_options_def)
  note dflt = timeouts_use_connectionTimeout[OF r' T', of "''c0de''" "''GET_RELATIONSHIPS''"
      None None "''42''"]
  from dflt have e: "connectionTimeout (options (ready_with example_options)) = 10000"
    by blast
  from dflt ready_with_fields(1)[of example_options]
  have "timers (snd (request ?rt ''c0de'' ''GET_RELATIONSHIPS'' None None (ready_with example_options)))
      = timers (ready_with example_options)
        @ [(Suc (fresh (ready_with example_options)), 10000,
            RequestTimeout ''c0de'' ''GET_RELATIONSHIPS'' (fresh (ready_with example_options)))]"
    by blast
  then have f: "timers (snd (request ?rt ''c0de'' ''GET_RELATIONSHIPS'' None None
                  (ready_with example_options)))
     = [(2, 30000, Heartbeat), (4, 10000, RequestTimeout ''c0de'' ''GET_RELATIONSHIPS'' 3)]"
    by (simp add: ready_with_fields o)
  from r(4) T s a b r(2) c r(1) d r' T' e f show ?thesis by (intro conjI)
qed

text \<open>
  Claim C10. \<open>setState\<close> emits one \<open>stateChange\<close> notification, carrying the new
  state, when the new state differs from the current one, and emits nothing when it
  does not; the state afterwards is the new state. \<open>destroy\<close> on a client that is
  \<open>disconnected\<close> completes at once and emits nothing. On every client that can
  arise, the states carried by the \<open>stateChange\<close> notifications emitted so far
  differ from each one to the next, and the last of them is the current state.
\<close>

theorem stateChange_only_when_state_changes:
  "emitted (setState s c) = emitted c @ (if s \<noteq> state c then [stateChange_event s] else []) \<and>
   state (setState s c) = s \<and>
   (state c = disconnected \<longrightarrow>
      destroy rt nonce c = (Completed, destroy_finish c) \<and>
      emitted (snd (destroy rt nonce c)) = emitted c) \<and>
   (reachable rt c \<longrightarrow>
      distinct_adj (stateChanges (emitted c)) \<and>
      (stateChanges (emitted c) = [] \<or> last (stateChanges (emitted c)) = state c))"
proof -
  have A: "emitted (setState s c) = emitted c @ (if s \<noteq> state c then [stateChange_event s] else [])"
    by (auto simp: setState_emitted)
  have B: "state (setState s c) = s" by simp
  have C: "destroy rt nonce c = (Completed, destroy_finish c) \<and>
      emitted (snd (destroy rt nonce c)) = emitted c" if "state c = disconnected"
    using that by (simp add: destroy_def destroy_finish_fields(7))
  have D: "distinct_adj (stateChanges (emitted c)) \<and>
      (stateChanges (emitted c) = [] \<or> last (stateChanges (emitted c)) = state c)"
    if "reachable rt c"
    using reachable_invs[OF that] by (simp add: sc_inv_def)
  from A B C D show ?thesis by blast
qed

theorem stateChange_only_when_state_changes_witness:
  "state (new_Client example_options) = disconnected \<and>
   emitted (snd (destroy (example_runtime snap_slot_3) ''c0de'' (new_Client example_options))) = [] \<and>
   emitted (setState connecting (new_Client example_options)) = [stateChange_event connecting] \<and>
   emitted (setState disconnected (new_Client example_options)) = [] \<and>
   reachable (example_runtime snap_slot_3) session_ready \<and>
   stateChanges (emitted session_ready) = [connecting, connected, ready] \<and>
   distinct_adj (stateChanges (emitted session_ready)) \<and>
   reachable (example_runtime snap_slot_3) (destroy_finish session_ready) \<and>
   stateChanges (emitted (destroy_finish session_ready))
     = [connecting, connected, ready, disconnected] \<and>
   distinct_adj (stateChanges (emitted (destroy_finish session_ready)))"
proof -
  let ?rt = "example_runtime snap_slot_3"
  let ?c0 = "new_Client example_options"
  have s0: "state ?c0 = disconnected" "emitted ?c0 = []"
    by (simp_all add: new_Client_def)
  note inst = stateChange_only_when_state_changes[of connecting ?c0 ?rt "''c0de''"]
  from inst s0(1) have "emitted (snd (destroy ?rt ''c0de'' ?c0)) = emitted ?c0"
    by blast
  then have a: "emitted (snd (destroy ?rt ''c0de'' ?c0)) = []"
    by (simp only: s0(2))
  from inst have "emitted (setState connecting ?c0)
      = emitted ?c0 @ (if connecting \<noteq> state ?c0 then [stateChange_event connecting] else [])"
    by blast
  then have b: "emitted (setState connecting ?c0) = [stateChange_event connecting]"
    by (simp add: s0)
  from stateChange_only_when_state_changes[of disconnected ?c0 ?rt "''c0de''"]
  have "emitted (setState disconnected ?c0)
      = emitted ?c0 @ (if disconnected \<noteq> state ?c0 then [stateChange_event disconnected] else [])"
    by blast
  then have c: "emitted (setState disconnected ?c0) = []"
    by (simp add: s0)
  note r = session_reachable(4)
  from stateChange_only_when_state_changes[of ready session_ready ?rt "''c0de''"] r
  have d: "distinct_adj (stateChanges (emitted session_ready))"
    by blast
  have e: "stateChanges (emitted session_ready) = [connecting, connected, ready]"
    by (simp add: session_ready_fields)
  have r': "reachable ?rt (destroy_finish session_ready)"
    using reachable_destroy_resumed[OF r, of "Rejected TypeError"]
    by (simp add: destroy_resume_def)
  from stateChange_only_when_state_changes[of ready "destroy_finish session_ready" ?rt "''c0de''"] r'
  have f: "distinct_adj (stateChanges (emitted (destroy_finish session_ready)))"
    by blast
  have g: "stateChanges (emitted (destroy_finish session_ready))
     = [connecting, connected, ready, disconnected]"
    by (simp add: destroy_finish_fields(7) session_ready_fields stateChanges_append)
  from s0(1) a b c r d e r' f g show ?thesis by blast
qed

end
